theory Spec2Isabelle
  imports Main "HOL-Library.Word"
begin

unbundle bit_operations_syntax

section \<open>The ReZZan runtime: data model\<close>

text \<open>
  The runtime (\<^verbatim>\<open>rezzan_runtime.c\<close>) is modelled on an x86-64 machine: \<^verbatim>\<open>size_t\<close>,
  \<^verbatim>\<open>uintptr_t\<close> and every pointer are 64-bit words with wrap-around arithmetic,
  \<^verbatim>\<open>int\<close> is a 32-bit word, \<^verbatim>\<open>uint32_t\<close> a 32-bit word.
\<close>

type_synonym size_t = "64 word"
type_synonym addr = "64 word"

subsection \<open>Quarantine size classes\<close>

text \<open>
  \<^verbatim>\<open>__builtin_clzll\<close>: the number of leading zero bits of a 64-bit value, found by
  scanning from bit 63 downwards (the builtin is undefined at 0; the only caller
  excludes 0 first).
\<close>

primrec clz_scan :: "nat \<Rightarrow> 64 word \<Rightarrow> nat" where
  "clz_scan 0 x = 0"
| "clz_scan (Suc k) x = (if bit x k then 0 else Suc (clz_scan k x))"

definition builtin_clzll :: "64 word \<Rightarrow> nat" where
  "builtin_clzll x = clz_scan 64 x"

text \<open>\<^verbatim>\<open>sizeof(quarantine) / sizeof(quarantine[0])\<close>: the array has 20 entries.\<close>

definition QUARANTINE_CLASSES :: nat where
  "QUARANTINE_CLASSES = 20"

definition quarantine_index :: "size_t \<Rightarrow> nat" where
  "quarantine_index size128 =
     (if size128 = 0 then 0
      else let i = 64 - builtin_clzll size128;
               max = QUARANTINE_CLASSES
           in if i \<ge> QUARANTINE_CLASSES then max - 1 else i)"

text \<open>
  The class index in the words of the specification: the floor of the base-2 logarithm
  of the unit count, clamped to 19, with 0 for the count 0.
\<close>

fun floor_log2 :: "nat \<Rightarrow> nat" where
  "floor_log2 n = (if n < 2 then 0 else Suc (floor_log2 (n div 2)))"

declare floor_log2.simps [simp del]

definition spec_quarantine_index :: "size_t \<Rightarrow> nat" where
  "spec_quarantine_index s = (if s = 0 then 0 else min (floor_log2 (unat s)) 19)"

subsection \<open>Outcomes\<close>

text \<open>
  A call returns, or stops at \<^verbatim>\<open>asm("ud2")\<close> (SIGILL, also the end of the \<^verbatim>\<open>error\<close>
  macro), or hands the request to glibc (\<^verbatim>\<open>__libc_malloc\<close>, \<^verbatim>\<open>__libc_free\<close>), or leaves
  the bounds of the \<^verbatim>\<open>quarantine\<close> array. Every operation returns its outcome together
  with the state at that point.
\<close>

datatype 'a outcome = Return 'a | Trap | Libc | Undefined

subsection \<open>Tokens, nodes and the global state\<close>

text \<open>
  \<^verbatim>\<open>rezzan_init\<close> stops with \<^verbatim>\<open>error\<close> unless \<^verbatim>\<open>nonce_size\<close> is 61 or 64, so the state
  holds one of these two.
\<close>

datatype nonce_bits = N61 | N64

text \<open>
  \<^verbatim>\<open>struct FreeNode\<close>. A \<^verbatim>\<open>FreeNode *\<close> is the index of the node in \<^verbatim>\<open>quarantine_pool\<close>,
  \<open>None\<close> for \<^verbatim>\<open>NULL\<close>; the field \<^verbatim>\<open>next\<close> is called \<open>nxt\<close>.
\<close>

record FreeNode =
  ptr128 :: "32 word"
  size128 :: "32 word"
  nxt :: "nat option"

record Entry =
  front :: "nat option"
  "back" :: "nat option"

text \<open>
  The globals of the module. Memory maps the address of each 8-byte aligned word to
  its content (bytes are little-endian parts of their word); the secret at
  \<^verbatim>\<open>NONCE_ADDR\<close> is the field \<open>nonce\<close>. \<open>mmap_ok\<close> says whether the kernel honours the
  next fixed-address mapping.
\<close>

record state =
  option_enabled :: bool
  option_inited :: bool
  option_checks :: bool
  nonce_size :: nonce_bits
  nonce :: "64 word"
  quarantine_size :: size_t
  pool_size :: size_t
  pool :: addr
  pool_ptr :: size_t
  pool_mmap :: size_t
  quarantine_pool_size :: size_t
  quarantine_pool :: "nat \<Rightarrow> FreeNode"
  quarantine_ptr :: size_t
  quarantine_mmap :: size_t
  quarantine_free :: "nat option"
  quarantine :: "nat \<Rightarrow> Entry"
  quarantine_usage :: size_t
  mem :: "addr \<Rightarrow> 64 word"
  errno :: int
  mmap_ok :: bool

definition PAGE_SIZE :: size_t where
  "PAGE_SIZE = 4096"

definition POOL_MMAP_SIZE :: size_t where
  "POOL_MMAP_SIZE = 2048"

definition QUARANTINE_MMAP_SIZE :: size_t where
  "QUARANTINE_MMAP_SIZE = 512"

definition ENOMEM :: int where
  "ENOMEM = 12"

subsection \<open>Low-level memory operations\<close>

text \<open>The five assembly routines, as the value written or the flag returned.\<close>

definition rezzan_set_token64 :: "64 word \<Rightarrow> 64 word" where
  "rezzan_set_token64 nc = - nc"

definition rezzan_test_token64 :: "64 word \<Rightarrow> 64 word \<Rightarrow> bool" where
  "rezzan_test_token64 nc w = (w + nc = 0)"

definition rezzan_set_token61 :: "64 word \<Rightarrow> size_t \<Rightarrow> 64 word" where
  "rezzan_set_token61 nc boundary = ((- nc) AND (- 8)) XOR boundary"

definition rezzan_test_token61 :: "64 word \<Rightarrow> 64 word \<Rightarrow> bool" where
  "rezzan_test_token61 nc w = ((w AND (- 8)) + nc = 0)"

definition rezzan_zero_token :: "64 word" where
  "rezzan_zero_token = 0"

definition poison :: "state \<Rightarrow> addr \<Rightarrow> size_t \<Rightarrow> state" where
  "poison s ptr64 sz =
     (case nonce_size s of
        N61 \<Rightarrow> s\<lparr>mem := (mem s)(ptr64 := rezzan_set_token61 (nonce s) (sz mod 8))\<rparr>
      | N64 \<Rightarrow> s\<lparr>mem := (mem s)(ptr64 := rezzan_set_token64 (nonce s))\<rparr>)"

definition zero :: "state \<Rightarrow> addr \<Rightarrow> state" where
  "zero s ptr64 = s\<lparr>mem := (mem s)(ptr64 := rezzan_zero_token)\<rparr>"

definition is_poisoned :: "state \<Rightarrow> addr \<Rightarrow> bool" where
  "is_poisoned s ptr64 =
     (case nonce_size s of
        N61 \<Rightarrow> rezzan_test_token61 (nonce s) (mem s ptr64)
      | N64 \<Rightarrow> rezzan_test_token64 (nonce s) (mem s ptr64))"

subsection \<open>The poison-window check\<close>

text \<open>The loop over the covering words; \<open>True\<close> when it reaches \<^verbatim>\<open>ud2\<close>.\<close>

function check_words :: "state \<Rightarrow> addr \<Rightarrow> size_t \<Rightarrow> size_t \<Rightarrow> bool" where
  "check_words s ptr64 n i =
     (if i < n
      then (if is_poisoned s (ptr64 + 8 * i) then True else check_words s ptr64 n (i + 1))
      else False)"
  by pat_completeness auto
termination
proof (relation "measure (\<lambda>(s, ptr64, n, i). unat n - unat i)")
  show "wf (measure (\<lambda>(s, ptr64, n, i). unat n - unat i))" by simp
next
  fix s :: state and ptr64 n i :: "64 word"
  assume lt: "i < n"
  then have "unat i < unat n" by (simp add: word_less_nat_alt)
  moreover have "unat (i + 1) = unat i + 1"
  proof -
    have "unat n < 2 ^ LENGTH(64)" by (rule unsigned_less)
    with \<open>unat i < unat n\<close> have "unat i + unat (1::64 word) < 2 ^ LENGTH(64)" by simp
    then show ?thesis by (simp add: unat_add_lem [THEN iffD1])
  qed
  ultimately show "((s, ptr64, n, i + 1), (s, ptr64, n, i))
      \<in> measure (\<lambda>(s, ptr64, n, i). unat n - unat i)" by simp
qed

declare check_words.simps [simp del]

text \<open>
  \<^verbatim>\<open>check_poisoned\<close>. \<^verbatim>\<open>check_len\<close> is an \<^verbatim>\<open>int\<close>: the sum is cut to 32 bits, and each
  operation with \<^verbatim>\<open>sizeof(Token)\<close> sign-extends it to \<^verbatim>\<open>size_t\<close> and cuts the result
  again.
\<close>

definition check_poisoned :: "state \<Rightarrow> addr \<Rightarrow> size_t \<Rightarrow> unit outcome" where
  "check_poisoned s ptr n =
     (let front_delta = ptr mod 8;
          check_len0 = (ucast (n + front_delta) :: 32 word);
          iptr = ptr - front_delta;
          end_delta = (scast check_len0 :: 64 word) mod 8;
          check_len1 = (if end_delta \<noteq> 0
                        then (ucast ((scast check_len0 :: 64 word) + 8) :: 32 word)
                        else check_len0);
          check_len = (ucast ((scast check_len1 :: 64 word) div 8) :: 32 word)
      in if check_words s iptr (scast check_len) 0 then Trap
         else if end_delta \<noteq> 0 \<and> nonce_size s = N61 then
           (let ptr64 = iptr + 8 * scast check_len
            in if ptr64 mod PAGE_SIZE \<noteq> 0 \<and> rezzan_test_token61 (nonce s) (mem s ptr64)
               then (let boundary = mem s ptr64 AND 7
                     in if boundary \<noteq> 0 \<and> boundary < end_delta then Trap else Return ())
               else Return ())
         else Return ())"

subsection \<open>Initialisation\<close>

text \<open>
  The values \<^verbatim>\<open>get_config\<close> reads from the environment, and \<^verbatim>\<open>rezzan_init\<close> on them.
  \<open>raw\<close> is what \<^verbatim>\<open>getrandom\<close> delivers. The anonymous mappings are zero-filled, and
  memory starts as zero everywhere. The diagnostic options are left out.
\<close>

record config =
  REZZAN_DISABLED :: bool
  REZZAN_NONCE_SIZE :: size_t
  REZZAN_QUARANTINE_SIZE :: size_t
  REZZAN_POOL_SIZE :: size_t
  REZZAN_CHECKS :: bool

definition static_state :: state where
  "static_state =
     \<lparr>option_enabled = False, option_inited = False, option_checks = False,
      nonce_size = N61, nonce = 0, quarantine_size = 0, pool_size = 0, pool = 0,
      pool_ptr = 0, pool_mmap = 0, quarantine_pool_size = 0,
      quarantine_pool = (\<lambda>_. \<lparr>ptr128 = 0, size128 = 0, nxt = None\<rparr>),
      quarantine_ptr = 0, quarantine_mmap = 0, quarantine_free = None,
      quarantine = (\<lambda>_. \<lparr>front = None, back = None\<rparr>), quarantine_usage = 0,
      mem = (\<lambda>_. 0), errno = 0, mmap_ok = True\<rparr>"

definition rezzan_init :: "config \<Rightarrow> 64 word \<Rightarrow> unit outcome \<times> state" where
  "rezzan_init cfg raw =
     (let s = static_state in
      if REZZAN_DISABLED cfg then (Return (), s\<lparr>option_inited := True\<rparr>)
      else let s = s\<lparr>option_enabled := True\<rparr> in
      if REZZAN_NONCE_SIZE cfg \<noteq> 61 \<and> REZZAN_NONCE_SIZE cfg \<noteq> 64 then (Trap, s)
      else let s = s\<lparr>nonce_size := (if REZZAN_NONCE_SIZE cfg = 61 then N61 else N64),
                      quarantine_size := REZZAN_QUARANTINE_SIZE cfg div 16,
                      pool_size := REZZAN_POOL_SIZE cfg\<rparr> in
      if pool_size s < POOL_MMAP_SIZE * 16 then (Trap, s)
      else if pool_size s mod PAGE_SIZE \<noteq> 0 then (Trap, s)
      else let s = s\<lparr>option_checks := REZZAN_CHECKS cfg\<rparr> in
      if \<not> mmap_ok s then (Trap, s)
      else let s = s\<lparr>nonce := (if nonce_size s = N61 then raw AND (- 8) else raw)\<rparr>;
               s = s\<lparr>pool := 0xaaa00000000, pool_size := pool_size s div 16,
                      pool_ptr := 0, pool_mmap := POOL_MMAP_SIZE\<rparr>;
               qps = 2 * quarantine_size s;
               s = s\<lparr>quarantine_pool_size := (if qps < 1048576 then 1048576 else qps),
                      quarantine_mmap := QUARANTINE_MMAP_SIZE\<rparr>;
               s = poison s (pool s) 0;
               s = poison s (pool s + 8) 0;
               s = s\<lparr>pool_ptr := pool_ptr s + 1\<rparr>
           in (Return (), s\<lparr>option_inited := True\<rparr>))"

subsection \<open>The quarantine\<close>

definition quarantine_node_alloc :: "state \<Rightarrow> nat option outcome \<times> state" where
  "quarantine_node_alloc s =
     (case quarantine_free s of
        Some node \<Rightarrow>
          (Return (Some node), s\<lparr>quarantine_free := nxt (quarantine_pool s node)\<rparr>)
      | None \<Rightarrow>
          if quarantine_ptr s \<ge> quarantine_mmap s \<and> \<not> mmap_ok s then (Trap, s)
          else
            (let s1 = (if quarantine_ptr s \<ge> quarantine_mmap s
                       then s\<lparr>quarantine_mmap := quarantine_mmap s + QUARANTINE_MMAP_SIZE\<rparr>
                       else s)
             in if quarantine_ptr s1 \<ge> quarantine_pool_size s1 then (Trap, s1)
                else (Return (Some (unat (quarantine_ptr s1))),
                      s1\<lparr>quarantine_ptr := quarantine_ptr s1 + 1\<rparr>)))"

text \<open>\<^verbatim>\<open>node->field = v\<close> for a node of the pool.\<close>

definition set_next :: "state \<Rightarrow> nat \<Rightarrow> nat option \<Rightarrow> state" where
  "set_next s node p =
     s\<lparr>quarantine_pool := (quarantine_pool s)(node := (quarantine_pool s node)\<lparr>nxt := p\<rparr>)\<rparr>"

definition set_size128 :: "state \<Rightarrow> nat \<Rightarrow> 32 word \<Rightarrow> state" where
  "set_size128 s node v =
     s\<lparr>quarantine_pool := (quarantine_pool s)(node := (quarantine_pool s node)\<lparr>size128 := v\<rparr>)\<rparr>"

definition set_ptr128 :: "state \<Rightarrow> nat \<Rightarrow> 32 word \<Rightarrow> state" where
  "set_ptr128 s node v =
     s\<lparr>quarantine_pool := (quarantine_pool s)(node := (quarantine_pool s node)\<lparr>ptr128 := v\<rparr>)\<rparr>"

definition set_front :: "state \<Rightarrow> nat \<Rightarrow> nat option \<Rightarrow> state" where
  "set_front s i p = s\<lparr>quarantine := (quarantine s)(i := (quarantine s i)\<lparr>front := p\<rparr>)\<rparr>"

definition set_back :: "state \<Rightarrow> nat \<Rightarrow> nat option \<Rightarrow> state" where
  "set_back s i p = s\<lparr>quarantine := (quarantine s)(i := (quarantine s i)\<lparr>back := p\<rparr>)\<rparr>"

text \<open>
  \<^verbatim>\<open>quarantine_insert\<close>. \<^verbatim>\<open>ptr128 - pool\<close> counts units of 16 bytes; both stores into the
  node cut the value to 32 bits.
\<close>

definition quarantine_insert :: "state \<Rightarrow> addr \<Rightarrow> size_t \<Rightarrow> unit outcome \<times> state" where
  "quarantine_insert s ptr sz128 =
     (case quarantine_node_alloc s of
        (Return None, s1) \<Rightarrow> (Return (), s1)
      | (Return (Some node), s1) \<Rightarrow>
          (let s2 = set_size128 s1 node (ucast sz128);
               s3 = set_ptr128 s2 node (ucast ((ptr - pool s) div 16));
               s4 = set_next s3 node None;
               i = quarantine_index sz128;
               s5 = (case back (quarantine s4 i) of
                       None \<Rightarrow> set_back (set_front s4 i (Some node)) i (Some node)
                     | Some b \<Rightarrow> set_back (set_next s4 b (Some node)) i (Some node))
           in (Return (), s5\<lparr>quarantine_usage := quarantine_usage s5 + sz128\<rparr>))
      | (Trap, s1) \<Rightarrow> (Trap, s1)
      | (Libc, s1) \<Rightarrow> (Libc, s1)
      | (Undefined, s1) \<Rightarrow> (Undefined, s1))"

text \<open>
  The first loop of \<^verbatim>\<open>quarantine_malloc\<close>, over list \<open>i\<close> with \<^verbatim>\<open>LIMIT = 8\<close>; it returns
  \<^verbatim>\<open>node\<close> and \<^verbatim>\<open>prev\<close> as the loop leaves them.
\<close>

definition LIMIT :: nat where
  "LIMIT = 8"

function scan_class ::
  "(nat \<Rightarrow> FreeNode) \<Rightarrow> size_t \<Rightarrow> nat \<Rightarrow> nat option \<Rightarrow> nat option \<Rightarrow> nat option \<times> nat option"
where
  "scan_class np sz128 j node prev =
     (case node of
        None \<Rightarrow> (node, prev)
      | Some n \<Rightarrow>
          if j < LIMIT
          then (if ucast (size128 (np n)) \<ge> sz128 then (node, prev)
                else scan_class np sz128 (j + 1) (nxt (np n)) (Some n))
          else (node, prev))"
  by pat_completeness auto
termination
  by (relation "measure (\<lambda>(np, sz128, j, node, prev). LIMIT - j)") auto

declare scan_class.simps [simp del]

text \<open>
  The first phase: the loop, then the line that drops a node too small for the
  request. It yields the chosen node and its predecessor.
\<close>

definition first_phase :: "state \<Rightarrow> size_t \<Rightarrow> nat option \<times> nat option" where
  "first_phase s sz128 =
     (let i = quarantine_index sz128;
          (node, prev) = scan_class (quarantine_pool s) sz128 0 (front (quarantine s i)) None
      in (case node of
            None \<Rightarrow> (None, prev)
          | Some n \<Rightarrow> if ucast (size128 (quarantine_pool s n)) < sz128
                      then (None, prev) else (node, prev)))"

text \<open>The second loop, over the lists of the larger classes; it returns \<^verbatim>\<open>i\<close> and \<^verbatim>\<open>node\<close>.\<close>

function scan_higher :: "state \<Rightarrow> size_t \<Rightarrow> nat \<Rightarrow> nat option \<Rightarrow> nat \<times> nat option" where
  "scan_higher s sz128 i node =
     (if i < QUARANTINE_CLASSES
      then (let node' = front (quarantine s i)
            in case node' of
                 None \<Rightarrow> scan_higher s sz128 (i + 1) node'
               | Some n \<Rightarrow> if ucast (size128 (quarantine_pool s n)) \<ge> sz128 then (i, node')
                           else scan_higher s sz128 (i + 1) node')
      else (i, node))"
  by pat_completeness auto
termination
  by (relation "measure (\<lambda>(s, sz128, i, node). QUARANTINE_CLASSES - i)") auto

declare scan_higher.simps [simp del]

text \<open>
  \<^verbatim>\<open>quarantine_malloc\<close>; the result pointer is 0 for \<^verbatim>\<open>NULL\<close>. When the second loop runs
  off the array with a node in hand, the code goes on to read \<^verbatim>\<open>quarantine[20]\<close>.
\<close>

definition quarantine_malloc :: "state \<Rightarrow> size_t \<Rightarrow> addr outcome \<times> state" where
  "quarantine_malloc s sz128 =
     (let i0 = quarantine_index sz128;
          (node1, prev1) = first_phase s sz128;
          (i, node, prev) = (case node1 of
                               None \<Rightarrow> (let (i2, node2) = scan_higher s sz128 (i0 + 1) None
                                        in (i2, node2, None))
                             | Some n \<Rightarrow> (i0, node1, prev1))
      in case node of
           None \<Rightarrow> (Return 0, s)
         | Some n \<Rightarrow>
             if i \<ge> QUARANTINE_CLASSES then (Undefined, s)
             else
               (let nd = quarantine_pool s n;
                    s1 = (case prev of
                            Some p \<Rightarrow> set_next s p (nxt nd)
                          | None \<Rightarrow>
                              if front (quarantine s i) \<noteq> back (quarantine s i)
                              then set_front s i (nxt nd)
                              else set_back (set_front s i None) i None);
                    s2 = s1\<lparr>quarantine_usage := quarantine_usage s1 - sz128\<rparr>
                in if ucast (size128 nd) = sz128
                   then (let ptr = pool s2 + 16 * ucast (ptr128 nd);
                             s3 = set_next s2 n (quarantine_free s2)
                         in (Return ptr, s3\<lparr>quarantine_free := Some n\<rparr>))
                   else (let diff128 = ucast (size128 nd) - sz128;
                             ptr = pool s2 + 16 * (ucast (ptr128 nd) + diff128);
                             j = quarantine_index diff128;
                             s3 = set_size128 s2 n (ucast diff128);
                             s4 = set_next s3 n None;
                             s5 = (case front (quarantine s4 j) of
                                     Some f \<Rightarrow> set_front (set_next s4 n (Some f)) j (Some n)
                                   | None \<Rightarrow> set_back (set_front s4 j (Some n)) j (Some n))
                         in (Return ptr, s5))))"

text \<open>
  The nodes of a list, from \<^verbatim>\<open>front\<close> along \<^verbatim>\<open>next\<close> to \<^verbatim>\<open>NULL\<close>. Every node lies below
  \<^verbatim>\<open>quarantine_ptr\<close>, so a walk of more steps than that has met a cycle: \<open>None\<close>.
\<close>

fun chain :: "nat \<Rightarrow> (nat \<Rightarrow> FreeNode) \<Rightarrow> nat option \<Rightarrow> nat list option" where
  "chain fuel np None = Some []"
| "chain 0 np (Some n) = None"
| "chain (Suc fuel) np (Some n) = map_option ((#) n) (chain fuel np (nxt (np n)))"

definition list_nodes :: "state \<Rightarrow> nat \<Rightarrow> nat list option" where
  "list_nodes s i =
     chain (unat (quarantine_ptr s)) (quarantine_pool s) (front (quarantine s i))"

text \<open>
  A well-formed list: the walk from \<^verbatim>\<open>front\<close> ends, \<^verbatim>\<open>back\<close> is its last node, and an
  empty list has both pointers \<^verbatim>\<open>NULL\<close>.
\<close>

definition list_wf :: "state \<Rightarrow> nat \<Rightarrow> bool" where
  "list_wf s i =
     (case list_nodes s i of
        None \<Rightarrow> False
      | Some ns \<Rightarrow>
          if ns = [] then front (quarantine s i) = None \<and> back (quarantine s i) = None
          else back (quarantine s i) = Some (last ns))"

definition quarantine_wf :: "state \<Rightarrow> bool" where
  "quarantine_wf s = list_all (list_wf s) [0..<QUARANTINE_CLASSES]"

text \<open>The sum of \<^verbatim>\<open>size128\<close> over the nodes on the lists.\<close>

definition list_sum :: "state \<Rightarrow> nat \<Rightarrow> nat" where
  "list_sum s i =
     (case list_nodes s i of
        None \<Rightarrow> 0
      | Some ns \<Rightarrow> sum_list (map (\<lambda>n. unat (size128 (quarantine_pool s n))) ns))"

definition live_sum :: "state \<Rightarrow> nat" where
  "live_sum s = sum_list (map (list_sum s) [0..<QUARANTINE_CLASSES])"

text \<open>
  The first phase in the words of the specification: among the first 8 nodes of the
  list, the first one that is large enough.
\<close>

definition fits :: "state \<Rightarrow> size_t \<Rightarrow> nat \<Rightarrow> bool" where
  "fits s sz128 n = (ucast (size128 (quarantine_pool s n)) \<ge> sz128)"

definition spec_first_phase :: "state \<Rightarrow> size_t \<Rightarrow> nat list \<Rightarrow> nat option" where
  "spec_first_phase s sz128 ns = find (fits s sz128) (take 8 ns)"

subsection \<open>The memory pool\<close>

definition pool_malloc :: "state \<Rightarrow> size_t \<Rightarrow> addr outcome \<times> state" where
  "pool_malloc s sz128 =
     (let ptr = pool s + 16 * pool_ptr s;
          new_pool_ptr = pool_ptr s + sz128
      in if new_pool_ptr > pool_size s then (Return 0, s\<lparr>errno := ENOMEM\<rparr>)
         else if new_pool_ptr > pool_mmap s then
           (let page_units = PAGE_SIZE div 16;
                pm0 = new_pool_ptr + POOL_MMAP_SIZE;
                pm1 = (if pm0 mod page_units \<noteq> 0
                       then (pm0 + page_units) - (pm0 + page_units) mod page_units
                       else pm0);
                pm = (if pm1 > pool_size s then pool_size s else pm1);
                s1 = s\<lparr>pool_mmap := pm\<rparr>
            in if \<not> mmap_ok s then (Trap, s1)
               else (Return ptr, s1\<lparr>pool_ptr := pool_ptr s1 + sz128\<rparr>))
         else (Return ptr, s\<lparr>pool_ptr := pool_ptr s + sz128\<rparr>))"

subsection \<open>Malloc\<close>

text \<open>The unit count \<^verbatim>\<open>size128\<close> of a request, \<^verbatim>\<open>size == 0\<close> already replaced by 1.\<close>

definition malloc_size128 :: "size_t \<Rightarrow> size_t" where
  "malloc_size128 sz =
     (let a = sz + 8;
          b = (if a mod 16 \<noteq> 0 then (a - a mod 16) + 16 else a)
      in b div 16)"

text \<open>The loop that zeroes the user words of a recycled region.\<close>

partial_function (option) zero_loop :: "state \<Rightarrow> addr \<Rightarrow> addr \<Rightarrow> state option" where
  "zero_loop s start64 end64 =
     (if start64 < end64 then zero_loop (zero s start64) (start64 + 8) end64 else Some s)"

declare zero_loop.simps [code]

text \<open>The loop that poisons the rest of the redzone; it returns \<^verbatim>\<open>end64\<close> as it leaves it.\<close>

partial_function (option) poison_loop ::
  "state \<Rightarrow> addr \<Rightarrow> addr \<Rightarrow> size_t \<Rightarrow> (addr \<times> state) option"
where
  "poison_loop s end64 end8 sz =
     (if end64 \<ge> end8 then poison_loop (poison s end64 sz) (end64 - 8) end8 sz
      else Some (end64, s))"

declare poison_loop.simps [code]

text \<open>The extra sanity checks of \<^verbatim>\<open>REZZAN_CHECKS\<close>; \<open>True\<close> when one of them fails.\<close>

partial_function (option) check_user ::
  "state \<Rightarrow> addr \<Rightarrow> size_t \<Rightarrow> size_t \<Rightarrow> size_t outcome option"
where
  "check_user s ptr64 sz i =
     (if i * 8 < sz
      then (if is_poisoned s (ptr64 + 8 * i) then Some Trap else check_user s ptr64 sz (i + 1))
      else Some (Return i))"

declare check_user.simps [code]

function check_redzone :: "state \<Rightarrow> addr \<Rightarrow> size_t \<Rightarrow> size_t \<Rightarrow> bool" where
  "check_redzone s ptr64 size64 i =
     (if i < size64
      then (if \<not> is_poisoned s (ptr64 + 8 * i) then True
            else check_redzone s ptr64 size64 (i + 1))
      else False)"
  by pat_completeness auto
termination
proof (relation "measure (\<lambda>(s, ptr64, n, i). unat n - unat i)")
  show "wf (measure (\<lambda>(s, ptr64, n, i). unat n - unat i))" by simp
next
  fix s :: state and ptr64 n i :: "64 word"
  assume lt: "i < n"
  then have "unat i < unat n" by (simp add: word_less_nat_alt)
  moreover have "unat (i + 1) = unat i + 1"
  proof -
    have "unat n < 2 ^ LENGTH(64)" by (rule unsigned_less)
    with \<open>unat i < unat n\<close> have "unat i + unat (1::64 word) < 2 ^ LENGTH(64)" by simp
    then show ?thesis by (simp add: unat_add_lem [THEN iffD1])
  qed
  ultimately show "((s, ptr64, n, i + 1), (s, ptr64, n, i))
      \<in> measure (\<lambda>(s, ptr64, n, i). unat n - unat i)" by simp
qed

declare check_redzone.simps [simp del]

definition malloc_checks ::
  "state \<Rightarrow> addr \<Rightarrow> size_t \<Rightarrow> size_t \<Rightarrow> addr \<Rightarrow> addr \<Rightarrow> bool option"
where
  "malloc_checks s ptr sz sz128 end64 end8 =
     (if ptr mod 16 \<noteq> 0 then Some True
      else if sz \<ge> sz128 * 16 then Some True
      else if end64 - end8 < 8 then Some True
      else if \<not> is_poisoned s (ptr - 8) then Some True
      else case check_user s ptr sz 0 of
             None \<Rightarrow> None
           | Some (Return i) \<Rightarrow>
               if \<not> is_poisoned s (ptr + 8 * i) then Some True
               else Some (check_redzone s ptr (2 * sz128) (i + 1))
           | Some other \<Rightarrow> Some True)"

text \<open>
  \<^verbatim>\<open>rezzan_malloc\<close> from the point where \<^verbatim>\<open>ptr\<close> is known to be non-null: the last token,
  the zeroing of a region from the quarantine (\<^verbatim>\<open>q\<close>), the rest of the redzone, the
  checks.
\<close>

definition malloc_finish ::
  "state \<Rightarrow> addr \<Rightarrow> bool \<Rightarrow> size_t \<Rightarrow> size_t \<Rightarrow> (addr outcome \<times> state) option"
where
  "malloc_finish s ptr q sz sz128 =
     (let end64 = ptr + sz128 * 16 - 8;
          s1 = poison s end64 sz;
          size64 = (if sz mod 8 \<noteq> 0 then (sz - sz mod 8) + 8 else sz)
      in case (if q then zero_loop s1 ptr (ptr + 8 * (size64 div 8)) else Some s1) of
           None \<Rightarrow> None
         | Some s2 \<Rightarrow>
             (let end8 = ptr + sz
              in case poison_loop s2 (end64 - 8) end8 sz of
                   None \<Rightarrow> None
                 | Some (e, s3) \<Rightarrow>
                     if option_checks s3
                     then (case malloc_checks s3 ptr sz sz128 e end8 of
                             None \<Rightarrow> None
                           | Some failed \<Rightarrow>
                               Some (if failed then Trap else Return ptr, s3))
                     else Some (Return ptr, s3)))"

definition rezzan_malloc :: "state \<Rightarrow> size_t \<Rightarrow> (addr outcome \<times> state) option" where
  "rezzan_malloc s size0 =
     (if \<not> option_enabled s then Some (Libc, s)
      else
        (let sz = (if size0 = 0 then 1 else size0);
             sz128 = malloc_size128 sz;
             (r1, s1) = (if quarantine_usage s > quarantine_size s
                         then quarantine_malloc s sz128 else (Return 0, s))
         in case r1 of
              Return ptr1 \<Rightarrow>
                (let q = (ptr1 \<noteq> 0);
                     (r2, s2) = (if \<not> q then pool_malloc s1 sz128 else (Return ptr1, s1))
                 in case r2 of
                      Return ptr \<Rightarrow>
                        if ptr = 0 then Some (Trap, s2)
                        else malloc_finish s2 ptr q sz sz128
                    | other \<Rightarrow> Some (other, s2))
            | other \<Rightarrow> Some (other, s1)))"

subsection \<open>Free\<close>

text \<open>
  The walk of \<^verbatim>\<open>rezzan_free\<close> that poisons the object up to its redzone; it returns the
  number \<^verbatim>\<open>i\<close> of words it wrote.
\<close>

partial_function (option) free_walk ::
  "state \<Rightarrow> addr \<Rightarrow> size_t \<Rightarrow> (size_t \<times> state) option"
where
  "free_walk s ptr64 i =
     (if \<not> is_poisoned s (ptr64 + 8 * i)
      then free_walk (poison s (ptr64 + 8 * i) 0) ptr64 (i + 1)
      else Some (i, s))"

declare free_walk.simps [code]

text \<open>The unit count \<^verbatim>\<open>rezzan_free\<close> works out from the walk.\<close>

definition free_size128 :: "size_t \<Rightarrow> size_t" where
  "free_size128 i =
     (let size64 = i + 1;
          size64' = (if size64 mod 2 = 1 then size64 + 1 else size64)
      in size64' div 2)"

definition rezzan_free :: "state \<Rightarrow> addr \<Rightarrow> (unit outcome \<times> state) option" where
  "rezzan_free s ptr =
     (if ptr = 0 then Some (Return (), s)
      else if \<not> option_enabled s then Some (Libc, s)
      else if ptr mod 16 \<noteq> 0 then Some (Trap, s)
      else if ptr < pool s \<or> ptr \<ge> pool s + 16 * pool_size s then Some (Libc, s)
      else if is_poisoned s ptr then Some (Trap, s)
      else if \<not> is_poisoned s (ptr - 8) then Some (Trap, s)
      else case free_walk s ptr 0 of
             None \<Rightarrow> None
           | Some (i, s1) \<Rightarrow> Some (quarantine_insert s1 ptr (free_size128 i)))"

subsection \<open>memcpy and memmove\<close>

text \<open>Byte \<open>a\<close> of memory is byte \<open>a mod 8\<close> of the word at \<open>a - a mod 8\<close>, lowest first.\<close>

definition load8 :: "(addr \<Rightarrow> 64 word) \<Rightarrow> addr \<Rightarrow> 8 word" where
  "load8 m a = ucast (drop_bit (8 * unat (a mod 8)) (m (a - a mod 8)))"

definition store8 :: "(addr \<Rightarrow> 64 word) \<Rightarrow> addr \<Rightarrow> 8 word \<Rightarrow> (addr \<Rightarrow> 64 word)" where
  "store8 m a b =
     (let w = a - a mod 8; k = 8 * unat (a mod 8)
      in m(w := (m w AND NOT (push_bit k 255)) OR push_bit k (ucast b)))"

function copy_bytes ::
  "(addr \<Rightarrow> 64 word) \<Rightarrow> addr \<Rightarrow> addr \<Rightarrow> size_t \<Rightarrow> size_t \<Rightarrow> (addr \<Rightarrow> 64 word)"
where
  "copy_bytes m dst8 src8 n i =
     (if i < n then copy_bytes (store8 m (dst8 + i) (load8 m (src8 + i))) dst8 src8 n (i + 1)
      else m)"
  by pat_completeness auto
termination
proof (relation "measure (\<lambda>(m, dst8, src8, n, i). unat n - unat i)")
  show "wf (measure (\<lambda>(m, dst8, src8, n, i). unat n - unat i))" by simp
next
  fix m :: "addr \<Rightarrow> 64 word" and dst8 src8 n i :: "64 word"
  assume lt: "i < n"
  then have "unat i < unat n" by (simp add: word_less_nat_alt)
  moreover have "unat (i + 1) = unat i + 1"
  proof -
    have "unat n < 2 ^ LENGTH(64)" by (rule unsigned_less)
    with \<open>unat i < unat n\<close> have "unat i + unat (1::64 word) < 2 ^ LENGTH(64)" by simp
    then show ?thesis by (simp add: unat_add_lem [THEN iffD1])
  qed
  ultimately show "((store8 m (dst8 + i) (load8 m (src8 + i)), dst8, src8, n, i + 1),
      (m, dst8, src8, n, i)) \<in> measure (\<lambda>(m, dst8, src8, n, i). unat n - unat i)" by simp
qed

declare copy_bytes.simps [simp del]

definition memcpy :: "state \<Rightarrow> addr \<Rightarrow> addr \<Rightarrow> size_t \<Rightarrow> addr outcome \<times> state" where
  "memcpy s dst src n =
     (case check_poisoned s dst n of
        Return _ \<Rightarrow>
          (case check_poisoned s src n of
             Return _ \<Rightarrow> (Return dst, s\<lparr>mem := copy_bytes (mem s) dst src n 0\<rparr>)
           | _ \<Rightarrow> (Trap, s))
      | _ \<Rightarrow> (Trap, s))"

text \<open>The two loops \<^verbatim>\<open>while (n--)\<close> of \<^verbatim>\<open>memmove\<close>, upwards and downwards.\<close>

function move_up ::
  "(addr \<Rightarrow> 64 word) \<Rightarrow> addr \<Rightarrow> addr \<Rightarrow> size_t \<Rightarrow> (addr \<Rightarrow> 64 word)"
where
  "move_up m dst8 src8 n =
     (if n \<noteq> 0 then move_up (store8 m dst8 (load8 m src8)) (dst8 + 1) (src8 + 1) (n - 1)
      else m)"
  by pat_completeness auto
termination
proof (relation "measure (\<lambda>(m, dst8, src8, n). unat n)")
  show "wf (measure (\<lambda>(m, dst8, src8, n). unat n))" by simp
next
  fix m :: "addr \<Rightarrow> 64 word" and dst8 src8 n :: "64 word"
  assume "n \<noteq> 0"
  then have "unat (n - 1) < unat n"
    by (simp add: unat_minus_one unat_gt_0 [symmetric] word_neq_0_conv)
  then show "((store8 m dst8 (load8 m src8), dst8 + 1, src8 + 1, n - 1), (m, dst8, src8, n))
      \<in> measure (\<lambda>(m, dst8, src8, n). unat n)" by simp
qed

declare move_up.simps [simp del]

function move_down ::
  "(addr \<Rightarrow> 64 word) \<Rightarrow> addr \<Rightarrow> addr \<Rightarrow> size_t \<Rightarrow> (addr \<Rightarrow> 64 word)"
where
  "move_down m lastd lasts n =
     (if n \<noteq> 0
      then move_down (store8 m lastd (load8 m lasts)) (lastd - 1) (lasts - 1) (n - 1)
      else m)"
  by pat_completeness auto
termination
proof (relation "measure (\<lambda>(m, lastd, lasts, n). unat n)")
  show "wf (measure (\<lambda>(m, lastd, lasts, n). unat n))" by simp
next
  fix m :: "addr \<Rightarrow> 64 word" and lastd lasts n :: "64 word"
  assume "n \<noteq> 0"
  then have "unat (n - 1) < unat n"
    by (simp add: unat_minus_one unat_gt_0 [symmetric] word_neq_0_conv)
  then show "((store8 m lastd (load8 m lasts), lastd - 1, lasts - 1, n - 1),
      (m, lastd, lasts, n)) \<in> measure (\<lambda>(m, lastd, lasts, n). unat n)" by simp
qed

declare move_down.simps [simp del]

definition memmove :: "state \<Rightarrow> addr \<Rightarrow> addr \<Rightarrow> size_t \<Rightarrow> addr outcome \<times> state" where
  "memmove s dst src n =
     (case check_poisoned s dst n of
        Return _ \<Rightarrow>
          (case check_poisoned s src n of
             Return _ \<Rightarrow>
               (Return dst,
                s\<lparr>mem := (if dst < src then move_up (mem s) dst src n
                           else move_down (mem s) (dst + (n - 1)) (src + (n - 1)) n)\<rparr>)
           | _ \<Rightarrow> (Trap, s))
      | _ \<Rightarrow> (Trap, s))"

subsection \<open>States of the nonce\<close>

text \<open>
  In 61-bit mode \<^verbatim>\<open>rezzan_init\<close> clears the boundary bits of the secret, and the test
  \<^verbatim>\<open>rezzan_test_token61\<close> relies on it.
\<close>

definition nonce_ok :: "state \<Rightarrow> bool" where
  "nonce_ok s = (nonce_size s = N61 \<longrightarrow> nonce s AND 7 = 0)"

subsection \<open>Words of a region\<close>

text \<open>
  The address of the \<open>k\<close>-th 8-byte word behind \<open>p\<close> (\<^verbatim>\<open>ptr64 + k\<close> for a \<^verbatim>\<open>Token *\<close>), the
  token \<^verbatim>\<open>poison(ptr64, size)\<close> writes, and the states after poisoning or zeroing the
  words \<open>lo\<close> to \<open>hi - 1\<close> behind \<open>p\<close>.
\<close>


definition word_at :: "addr \<Rightarrow> nat \<Rightarrow> addr" where
  "word_at p k = p + 8 * of_nat k"

definition token_of :: "state \<Rightarrow> size_t \<Rightarrow> 64 word" where
  "token_of s sz =
     (case nonce_size s of
        N61 \<Rightarrow> rezzan_set_token61 (nonce s) (sz mod 8)
      | N64 \<Rightarrow> rezzan_set_token64 (nonce s))"

definition poison_range :: "state \<Rightarrow> addr \<Rightarrow> nat \<Rightarrow> nat \<Rightarrow> size_t \<Rightarrow> state" where
  "poison_range s p lo hi sz =
     s\<lparr>mem := (\<lambda>a. if \<exists>k. lo \<le> k \<and> k < hi \<and> a = word_at p k
                    then token_of s sz else mem s a)\<rparr>"

definition zero_range :: "state \<Rightarrow> addr \<Rightarrow> nat \<Rightarrow> nat \<Rightarrow> state" where
  "zero_range s p lo hi =
     s\<lparr>mem := (\<lambda>a. if \<exists>k. lo \<le> k \<and> k < hi \<and> a = word_at p k then 0 else mem s a)\<rparr>"



section \<open>Scenarios\<close>

text \<open>
  A process with the default options (61-bit nonce, 256 MB quarantine threshold, 2 GB
  pool, no extra checks) right after \<^verbatim>\<open>rezzan_init\<close>, one with \<^verbatim>\<open>REZZAN_CHECKS=1\<close>, and
  one with the smallest pool that \<^verbatim>\<open>rezzan_init\<close> accepts.
\<close>

definition default_config :: config where
  "default_config =
     \<lparr>REZZAN_DISABLED = False, REZZAN_NONCE_SIZE = 61, REZZAN_QUARANTINE_SIZE = 268435456,
      REZZAN_POOL_SIZE = 2147483648, REZZAN_CHECKS = False\<rparr>"

definition fresh :: state where
  "fresh = snd (rezzan_init default_config 0x123456789abcdef)"

definition fresh_checked :: state where
  "fresh_checked = snd (rezzan_init (default_config\<lparr>REZZAN_CHECKS := True\<rparr>) 0x123456789abcdef)"

definition fresh_small :: state where
  "fresh_small = snd (rezzan_init (default_config\<lparr>REZZAN_POOL_SIZE := 32768\<rparr>) 0x123456789abcdef)"

text \<open>The pointer (or trap) a call of \<^verbatim>\<open>malloc\<close> yields, and the state it leaves.\<close>

definition malloc_result :: "state \<Rightarrow> size_t \<Rightarrow> addr outcome option" where
  "malloc_result s n = map_option fst (rezzan_malloc s n)"

definition malloc_state :: "state \<Rightarrow> size_t \<Rightarrow> state" where
  "malloc_state s n = (case rezzan_malloc s n of Some (r, s') \<Rightarrow> s' | None \<Rightarrow> s)"

definition free_result :: "state \<Rightarrow> addr \<Rightarrow> unit outcome option" where
  "free_result s p = map_option fst (rezzan_free s p)"

text \<open>
  Two regions of 2 and 3 units go into the empty quarantine (both of class 2); the
  second is taken out again by a request for 3 units; a region of 2 units is inserted;
  a request for 2 units and one more insertion follow.
\<close>

definition two_regions :: state where
  "two_regions =
     snd (quarantine_insert (snd (quarantine_insert fresh (pool fresh + 16) 2))
            (pool fresh + 48) 3)"

definition after_detach :: state where
  "after_detach = snd (quarantine_malloc two_regions 3)"

definition after_reinsert :: state where
  "after_reinsert = snd (quarantine_insert after_detach (pool fresh + 96) 2)"

definition after_second_round :: state where
  "after_second_round =
     snd (quarantine_insert (snd (quarantine_malloc after_reinsert 2)) (pool fresh + 128) 2)"

text \<open>Nine regions of class 3 in one list: eight of 4 units, then one of 7 units.\<close>

fun insert_all :: "state \<Rightarrow> (addr \<times> size_t) list \<Rightarrow> state" where
  "insert_all s [] = s"
| "insert_all s ((p, n) # xs) = insert_all (snd (quarantine_insert s p n)) xs"

definition nine_regions :: state where
  "nine_regions =
     insert_all fresh
       [(pool fresh + 16, 4), (pool fresh + 80, 4), (pool fresh + 144, 4),
        (pool fresh + 208, 4), (pool fresh + 272, 4), (pool fresh + 336, 4),
        (pool fresh + 400, 4), (pool fresh + 464, 4), (pool fresh + 528, 7)]"

text \<open>
  A process that has used up its \<^verbatim>\<open>quarantine_pool_size\<close> nodes, none of them on the
  node freelist, and holds one live object of 100 bytes (13 user words and one redzone
  word).
\<close>

definition nodes_exhausted :: state where
  "nodes_exhausted =
     (malloc_state fresh 100)\<lparr>quarantine_ptr := quarantine_pool_size fresh,
                                quarantine_mmap := quarantine_pool_size fresh\<rparr>"

text \<open>
  A process with a pool of 16 GB that holds an object of 4 GB and, behind it, one of
  4 GB and 8 bytes.
\<close>

definition fresh_large :: state where
  "fresh_large =
     snd (rezzan_init (default_config\<lparr>REZZAN_POOL_SIZE := 17179869184\<rparr>) 0x123456789abcdef)"

definition two_large_objects :: state where
  "two_large_objects = malloc_state (malloc_state fresh_large 4294967296) 4294967304"

text \<open>The state a call of \<^verbatim>\<open>free\<close> leaves.\<close>

definition free_state :: "state \<Rightarrow> addr \<Rightarrow> state" where
  "free_state s p = (case rezzan_free s p of Some (r, s') \<Rightarrow> s' | None \<Rightarrow> s)"

section \<open>Size classes: proofs\<close>

lemma floor_log2_bounds:
  "0 < n \<Longrightarrow> 2 ^ floor_log2 n \<le> n \<and> n < 2 ^ (floor_log2 n + 1)"
proof (induction n rule: floor_log2.induct)
  case (1 n)
  show ?case
  proof (cases "n < 2")
    case True
    with "1.prems" show ?thesis by (simp add: floor_log2.simps)
  next
    case False
    then have pos: "0 < n div 2" by simp
    from "1.IH" [OF False pos]
    have lo: "2 ^ floor_log2 (n div 2) \<le> n div 2"
      and hi: "n div 2 < 2 ^ (floor_log2 (n div 2) + 1)" by simp_all
    have eq: "floor_log2 n = Suc (floor_log2 (n div 2))"
      using False by (subst floor_log2.simps) simp
    from lo have "2 * 2 ^ floor_log2 (n div 2) \<le> n" by simp
    moreover from hi have "n < 2 * 2 ^ (floor_log2 (n div 2) + 1)" by simp
    ultimately show ?thesis by (simp add: eq)
  qed
qed

lemma floor_log2_unique:
  assumes "2 ^ k \<le> n" and "n < 2 ^ (k + 1)"
  shows "floor_log2 n = k"
proof -
  from assms(1) have pos: "0 < n"
    by (metis less_le_trans zero_less_numeral zero_less_power)
  from floor_log2_bounds [OF pos]
  have lo: "2 ^ floor_log2 n \<le> n" and hi: "n < 2 ^ (floor_log2 n + 1)" by simp_all
  have "(2::nat) ^ k < 2 ^ (floor_log2 n + 1)" using assms(1) hi by linarith
  then have a: "k < floor_log2 n + 1" by (rule power_less_imp_less_exp [rotated]) simp
  have "(2::nat) ^ floor_log2 n < 2 ^ (k + 1)" using lo assms(2) by linarith
  then have b: "floor_log2 n < k + 1" by (rule power_less_imp_less_exp [rotated]) simp
  from a b show ?thesis by simp
qed

lemma clz_scan_top_bit:
  assumes "bit x k" and "\<forall>j. k < j \<and> j < n \<longrightarrow> \<not> bit x j" and "k < n"
  shows "clz_scan n x = n - 1 - k"
  using assms
proof (induction n)
  case 0
  then show ?case by simp
next
  case (Suc n)
  show ?case
  proof (cases "k = n")
    case True
    with Suc.prems show ?thesis by simp
  next
    case False
    with Suc.prems have kn: "k < n" by simp
    from Suc.prems kn have nb: "\<not> bit x n" by simp
    from Suc.prems have "\<forall>j. k < j \<and> j < n \<longrightarrow> \<not> bit x j" by simp
    from Suc.IH [OF Suc.prems(1) this kn] nb kn show ?thesis by simp
  qed
qed

lemma word_bits_of_bounds:
  fixes x :: "64 word"
  assumes lo: "2 ^ k \<le> unat x" and hi: "unat x < 2 ^ (k + 1)"
  shows "bit x k" and "\<forall>j. k < j \<and> j < 64 \<longrightarrow> \<not> bit x j"
proof -
  have hib: "\<not> bit (unat x) j" if "k < j" for j
  proof -
    have "(2::nat) ^ (k + 1) \<le> 2 ^ j"
      using that by (intro power_increasing) simp_all
    with hi have "unat x < 2 ^ j" by linarith
    then show ?thesis by (simp add: bit_iff_odd)
  qed
  have "bit (unat x) k"
  proof -
    have "unat x div 2 ^ k = 1"
    proof -
      have "unat x div 2 ^ k < 2"
        using hi by (simp add: less_mult_imp_div_less mult.commute)
      moreover have "0 < unat x div 2 ^ k"
        using lo by (simp add: div_greater_zero_iff)
      ultimately show ?thesis by simp
    qed
    then show ?thesis by (simp add: bit_iff_odd)
  qed
  then show "bit x k" by (simp add: bit_unsigned_iff)
  show "\<forall>j. k < j \<and> j < 64 \<longrightarrow> \<not> bit x j"
  proof (intro allI impI)
    fix j assume "k < j \<and> j < 64"
    then have "\<not> bit (unat x) j" using hib by simp
    then show "\<not> bit x j" by (simp add: bit_unsigned_iff)
  qed
qed

lemma word64_exp_bound:
  fixes x :: "64 word"
  assumes "2 ^ k \<le> unat x"
  shows "k < 64"
proof -
  have "unat x < 2 ^ LENGTH(64)" by (rule unsigned_less)
  with assms have "(2::nat) ^ k < 2 ^ LENGTH(64)" by linarith
  then have "k < LENGTH(64)" by (rule power_less_imp_less_exp [rotated]) simp
  then show ?thesis by simp
qed

lemma builtin_clzll_bounds:
  assumes "2 ^ k \<le> unat x" and "unat x < 2 ^ (k + 1)"
  shows "builtin_clzll x = 63 - k"
proof -
  from assms(1) have k64: "k < 64" by (rule word64_exp_bound)
  from word_bits_of_bounds [OF assms] clz_scan_top_bit [of x k 64] k64
  show ?thesis by (simp add: builtin_clzll_def)
qed

lemma quarantine_index_bounds:
  assumes "2 ^ k \<le> unat s" and "unat s < 2 ^ (k + 1)"
  shows "quarantine_index s = min (k + 1) 19"
proof -
  from assms(1) have k64: "k < 64" by (rule word64_exp_bound)
  from assms(1) have "unat s \<noteq> 0"
    by (metis power_eq_0_iff zero_neq_numeral le_zero_eq)
  then have nz: "s \<noteq> 0" by (metis unsigned_0)
  show ?thesis
    using nz k64 builtin_clzll_bounds [OF assms]
    by (simp add: quarantine_index_def QUARANTINE_CLASSES_def Let_def min_def)
qed

section \<open>Tokens: proofs\<close>


lemma low3_zero_neg:
  fixes nc :: "64 word"
  assumes "nc AND 7 = 0"
  shows "(- nc) AND (- 8) = - nc"
proof -
  have m: "(7 :: 64 word) = mask 3" by (simp add: mask_eq_exp_minus_1)
  from assms have "take_bit 3 nc = 0" by (simp add: m take_bit_eq_mask)
  then have "2 ^ 3 dvd nc" by (simp add: take_bit_eq_0_iff)
  then have "2 ^ 3 dvd - nc" by simp
  then have tb: "take_bit 3 (- nc) = 0" by (simp only: take_bit_eq_0_iff)
  have n8: "(- 8 :: 64 word) = NOT (mask 3)" by (simp add: mask_eq_exp_minus_1 not_eq_complement)
  show ?thesis
  proof (rule bit_eqI)
    fix k
    have "bit (take_bit 3 (- nc)) k = False" using tb by simp
    then have "bit (- nc) k \<Longrightarrow> 3 \<le> k" by (auto simp: bit_take_bit_iff not_less)
    then show "bit ((- nc) AND (- 8)) k = bit (- nc) k"
      unfolding n8 by (auto simp: bit_simps dest: bit_imp_le_length)
  qed
qed

lemma mod8_low:
  fixes b :: "64 word"
  shows "(b mod 8) AND (- 8) = 0" and "(b mod 8) AND 7 = b mod 8"
proof -
  have b8: "b mod 8 = take_bit 3 b" by (simp add: take_bit_eq_mod)
  have n8: "(- 8 :: 64 word) = NOT (mask 3)" by (simp add: mask_eq_exp_minus_1 not_eq_complement)
  have m: "(7 :: 64 word) = mask 3" by (simp add: mask_eq_exp_minus_1)
  show "(b mod 8) AND (- 8) = 0"
    unfolding b8 n8 by (rule bit_eqI) (auto simp: bit_simps)
  show "(b mod 8) AND 7 = b mod 8"
    unfolding b8 m by (rule bit_eqI) (auto simp: bit_simps)
qed

lemma set61_masked:
  assumes "nc AND 7 = 0"
  shows "rezzan_set_token61 nc (b mod 8) AND (- 8) = - nc"
    and "rezzan_set_token61 nc (b mod 8) AND 7 = b mod 8"
proof -
  have a: "(- nc) AND (- 8) = - nc" by (rule low3_zero_neg [OF assms])
  have "(- nc) AND 7 = ((- nc) AND (- 8)) AND 7" by (simp add: a)
  also have "\<dots> = (- nc) AND ((- 8) AND 7)" by (simp add: and.assoc)
  also have "\<dots> = 0" by simp
  finally have c: "(- nc) AND 7 = 0" .
  show "rezzan_set_token61 nc (b mod 8) AND (- 8) = - nc"
    by (simp add: rezzan_set_token61_def a bit.conj_xor_distrib2 mod8_low and.assoc)
  show "rezzan_set_token61 nc (b mod 8) AND 7 = b mod 8"
    by (simp add: rezzan_set_token61_def a bit.conj_xor_distrib2 mod8_low c)
qed

lemma set61_test61:
  "nc AND 7 = 0 \<Longrightarrow> rezzan_test_token61 nc (rezzan_set_token61 nc (b mod 8))"
  by (simp add: rezzan_test_token61_def set61_masked)

lemma set64_test64: "rezzan_test_token64 nc (rezzan_set_token64 nc)"
  by (simp add: rezzan_test_token64_def rezzan_set_token64_def)

lemma poison_is_poisoned: "nonce_ok s \<Longrightarrow> is_poisoned (poison s a b) a"
  by (cases "nonce_size s")
     (simp_all add: nonce_ok_def poison_def is_poisoned_def set61_test61 set64_test64)

lemma is_poisoned_poison_other: "a' \<noteq> a \<Longrightarrow> is_poisoned (poison s a b) a' = is_poisoned s a'"
  by (cases "nonce_size s") (simp_all add: poison_def is_poisoned_def)


section \<open>Evaluating the scenarios\<close>

lemmas quarantine_defs = quarantine_insert_def quarantine_malloc_def quarantine_node_alloc_def
  set_next_def set_size128_def set_ptr128_def set_front_def set_back_def first_phase_def
  scan_class.simps scan_higher.simps QUARANTINE_CLASSES_def LIMIT_def
  QUARANTINE_MMAP_SIZE_def POOL_MMAP_SIZE_def PAGE_SIZE_def word_le_nat_alt word_less_nat_alt

lemmas wf_defs = quarantine_wf_def list_wf_def list_nodes_def live_sum_def list_sum_def

lemma quarantine_index_values:
  "quarantine_index 2 = 2" "quarantine_index 3 = 2" "quarantine_index 4 = 3"
  "quarantine_index 7 = 3"
  by code_simp+

lemma fresh_state:
  "fresh =
     \<lparr>option_enabled = True, option_inited = True, option_checks = False,
      nonce_size = N61, nonce = 81985529216486888, quarantine_size = 16777216,
      pool_size = 134217728, pool = 11725260718080, pool_ptr = 1, pool_mmap = 2048,
      quarantine_pool_size = 33554432,
      quarantine_pool = \<lambda>_. \<lparr>ptr128 = 0, size128 = 0, nxt = None\<rparr>,
      quarantine_ptr = 0, quarantine_mmap = 512, quarantine_free = None,
      quarantine = \<lambda>_. \<lparr>front = None, back = None\<rparr>, quarantine_usage = 0,
      mem = (\<lambda>_. 0)(11725260718080 := - 81985529216486888,
                     11725260718088 := - 81985529216486888),
      errno = 0, mmap_ok = True\<rparr>"
  by (simp add: fresh_def default_config_def rezzan_init_def static_state_def poison_def
      rezzan_set_token61_def QUARANTINE_MMAP_SIZE_def POOL_MMAP_SIZE_def PAGE_SIZE_def
      Let_def word_le_nat_alt word_less_nat_alt)

lemmas eval_defs = fresh_state quarantine_defs quarantine_index_values Let_def

lemma two_regions_fields:
  "quarantine two_regions =
     (\<lambda>_. \<lparr>front = None, back = None\<rparr>)(2 := \<lparr>front = Some 0, back = Some 1\<rparr>)"
  "quarantine_pool two_regions =
     (\<lambda>_. \<lparr>ptr128 = 0, size128 = 0, nxt = None\<rparr>)
       (1 := \<lparr>ptr128 = 3, size128 = 3, nxt = None\<rparr>,
        0 := \<lparr>ptr128 = 1, size128 = 2, nxt = Some 1\<rparr>)"
  "quarantine_ptr two_regions = 2"
  "quarantine_free two_regions = None"
  "quarantine_usage two_regions = 5"
  by (simp_all add: two_regions_def eval_defs)

lemma after_detach_fields:
  "quarantine after_detach =
     (\<lambda>_. \<lparr>front = None, back = None\<rparr>)(2 := \<lparr>front = Some 0, back = Some 1\<rparr>)"
  "quarantine_pool after_detach =
     (\<lambda>_. \<lparr>ptr128 = 0, size128 = 0, nxt = None\<rparr>)
       (0 := \<lparr>ptr128 = 1, size128 = 2, nxt = None\<rparr>,
        1 := \<lparr>ptr128 = 3, size128 = 3, nxt = None\<rparr>)"
  "quarantine_ptr after_detach = 2"
  "quarantine_free after_detach = Some 1"
  "quarantine_usage after_detach = 2"
  by (simp_all add: after_detach_def two_regions_def eval_defs)

lemma after_reinsert_fields:
  "quarantine after_reinsert =
     (\<lambda>_. \<lparr>front = None, back = None\<rparr>)(2 := \<lparr>front = Some 0, back = Some 1\<rparr>)"
  "quarantine_pool after_reinsert =
     (\<lambda>_. \<lparr>ptr128 = 0, size128 = 0, nxt = None\<rparr>)
       (0 := \<lparr>ptr128 = 1, size128 = 2, nxt = None\<rparr>,
        1 := \<lparr>ptr128 = 6, size128 = 2, nxt = Some 1\<rparr>)"
  "quarantine_ptr after_reinsert = 2"
  "quarantine_free after_reinsert = None"
  "quarantine_usage after_reinsert = 4"
  by (simp_all add: after_reinsert_def after_detach_def two_regions_def eval_defs)

lemma after_second_round_fields:
  "quarantine after_second_round =
     (\<lambda>_. \<lparr>front = None, back = None\<rparr>)(2 := \<lparr>front = None, back = Some 0\<rparr>)"
  "quarantine_pool after_second_round =
     (\<lambda>_. \<lparr>ptr128 = 0, size128 = 0, nxt = None\<rparr>)
       (0 := \<lparr>ptr128 = 8, size128 = 2, nxt = None\<rparr>,
        1 := \<lparr>ptr128 = 6, size128 = 2, nxt = Some 0\<rparr>)"
  "quarantine_ptr after_second_round = 2"
  "quarantine_free after_second_round = None"
  "quarantine_usage after_second_round = 4"
  by (simp_all add: after_second_round_def after_reinsert_def after_detach_def
      two_regions_def eval_defs)

lemma nine_regions_fields:
  "quarantine nine_regions =
     (\<lambda>_. \<lparr>front = None, back = None\<rparr>)(3 := \<lparr>front = Some 0, back = Some 8\<rparr>)"
  "quarantine_pool nine_regions =
     (\<lambda>_. \<lparr>ptr128 = 0, size128 = 0, nxt = None\<rparr>)
       (0 := \<lparr>ptr128 = 1, size128 = 4, nxt = Some 1\<rparr>,
        1 := \<lparr>ptr128 = 5, size128 = 4, nxt = Some 2\<rparr>,
        2 := \<lparr>ptr128 = 9, size128 = 4, nxt = Some 3\<rparr>,
        3 := \<lparr>ptr128 = 13, size128 = 4, nxt = Some 4\<rparr>,
        4 := \<lparr>ptr128 = 17, size128 = 4, nxt = Some 5\<rparr>,
        5 := \<lparr>ptr128 = 21, size128 = 4, nxt = Some 6\<rparr>,
        6 := \<lparr>ptr128 = 25, size128 = 4, nxt = Some 7\<rparr>,
        8 := \<lparr>ptr128 = 33, size128 = 7, nxt = None\<rparr>,
        7 := \<lparr>ptr128 = 29, size128 = 4, nxt = Some 8\<rparr>)"
  "quarantine_ptr nine_regions = 9"
  by (simp_all add: nine_regions_def eval_defs)

section \<open>Lists of the quarantine: proofs\<close>


lemma chain_step:
  "chain fuel np (Some n) =
     (if fuel = 0 then None else map_option ((#) n) (chain (fuel - 1) np (nxt (np n))))"
  by (cases fuel) simp_all

lemma list_nodes_empty: "front (quarantine s i) = None \<Longrightarrow> list_nodes s i = Some []"
  by (simp add: list_nodes_def)

lemma list_wf_empty:
  "front (quarantine s i) = None \<Longrightarrow> list_wf s i = (back (quarantine s i) = None)"
  by (simp add: list_wf_def list_nodes_empty)

lemma list_sum_empty: "front (quarantine s i) = None \<Longrightarrow> list_sum s i = 0"
  by (simp add: list_sum_def list_nodes_empty)

lemma quarantine_wf_single:
  assumes "quarantine s = (\<lambda>_. \<lparr>front = None, back = None\<rparr>)(c := e)"
  shows "quarantine_wf s = (c < QUARANTINE_CLASSES \<longrightarrow> list_wf s c)"
proof -
  have other: "list_wf s i" if "i \<noteq> c" for i
    using that by (simp add: list_wf_empty assms)
  show ?thesis
  proof
    assume "quarantine_wf s"
    then show "c < QUARANTINE_CLASSES \<longrightarrow> list_wf s c"
      by (simp add: quarantine_wf_def list_all_iff)
  next
    assume c: "c < QUARANTINE_CLASSES \<longrightarrow> list_wf s c"
    have "list_wf s i" if "i < QUARANTINE_CLASSES" for i
      using that c other [of i] by (cases "i = c") simp_all
    then show "quarantine_wf s"
      by (simp add: quarantine_wf_def list_all_iff)
  qed
qed

lemma live_sum_single:
  assumes "quarantine s = (\<lambda>_. \<lparr>front = None, back = None\<rparr>)(c := e)"
    and "c < QUARANTINE_CLASSES"
  shows "live_sum s = list_sum s c"
proof -
  have other: "list_sum s i = 0" if "i \<noteq> c" for i
    using that by (simp add: list_sum_empty assms)
  have "live_sum s = (\<Sum>i = 0..<QUARANTINE_CLASSES. list_sum s i)"
    by (simp add: live_sum_def interv_sum_list_conv_sum_set_nat)
  also have "\<dots> = (\<Sum>i = 0..<QUARANTINE_CLASSES. if i = c then list_sum s c else 0)"
    by (rule sum.cong) (auto simp: other)
  also have "\<dots> = list_sum s c" using assms(2) by simp
  finally show ?thesis .
qed

lemma two_regions_nodes: "list_nodes two_regions 2 = Some [0, 1]"
  by (simp add: list_nodes_def two_regions_fields chain_step)

lemma after_detach_nodes: "list_nodes after_detach 2 = Some [0]"
  by (simp add: list_nodes_def after_detach_fields chain_step)

lemma after_reinsert_nodes: "list_nodes after_reinsert 2 = Some [0]"
  by (simp add: list_nodes_def after_reinsert_fields chain_step)

lemma after_second_round_nodes: "list_nodes after_second_round 2 = Some []"
  by (simp add: list_nodes_def after_second_round_fields chain_step)

lemma nine_regions_nodes: "list_nodes nine_regions 3 = Some [0, 1, 2, 3, 4, 5, 6, 7, 8]"
  by (simp add: list_nodes_def nine_regions_fields chain_step)

section \<open>The first phase of the quarantine search: proofs\<close>


lemma find_take_Suc:
  "find P (take (Suc k) xs) =
     (case find P (take k xs) of
        Some x \<Rightarrow> Some x
      | None \<Rightarrow> if k < length xs \<and> P (xs ! k) then Some (xs ! k) else None)"
proof (induction xs arbitrary: k)
  case Nil
  then show ?case by simp
next
  case (Cons x xs)
  show ?case
  proof (cases k)
    case 0
    then show ?thesis by simp
  next
    case (Suc k')
    with Cons.IH [of k'] show ?thesis by (auto split: option.splits)
  qed
qed

lemma chain_Some_cases:
  assumes "chain fuel np node = Some ns"
  shows "(node = None \<and> ns = []) \<or>
         (\<exists>n f rest. node = Some n \<and> fuel = Suc f \<and> ns = n # rest \<and>
                      chain f np (nxt (np n)) = Some rest)"
proof (cases node)
  case None
  with assms show ?thesis by simp
next
  case (Some n)
  show ?thesis
  proof (cases fuel)
    case 0
    with Some assms show ?thesis by simp
  next
    case (Suc f)
    with Some assms show ?thesis by auto
  qed
qed

lemma scan_class_chain:
  assumes "chain fuel np node = Some ns" and "j \<le> LIMIT"
  shows "fst (scan_class np req j node prev) =
     (case find (\<lambda>n. req \<le> ucast (size128 (np n))) (take (LIMIT - j) ns) of
        Some n \<Rightarrow> Some n
      | None \<Rightarrow> if LIMIT - j < length ns then Some (ns ! (LIMIT - j)) else None)"
  using assms
proof (induction ns arbitrary: fuel node j prev)
  case Nil
  from chain_Some_cases [OF Nil.prems(1)] have "node = None" by auto
  then show ?case by (simp add: scan_class.simps)
next
  case (Cons n rest)
  from chain_Some_cases [OF Cons.prems(1)]
  obtain f where node: "node = Some n" and rest: "chain f np (nxt (np n)) = Some rest"
    by auto
  show ?case
  proof (cases "j < LIMIT")
    case False
    with Cons.prems(2) have "LIMIT - j = 0" by simp
    with False node show ?thesis by (simp add: scan_class.simps)
  next
    case True
    then obtain d where d: "LIMIT - j = Suc d" by (cases "LIMIT - j") auto
    then have d': "LIMIT - (j + 1) = d" by simp
    show ?thesis
    proof (cases "req \<le> ucast (size128 (np n))")
      case fits: True
      with True node d show ?thesis by (subst scan_class.simps) simp
    next
      case nofit: False
      from True have "j + 1 \<le> LIMIT" by simp
      from Cons.IH [OF rest this, of "Some n"]
      have "fst (scan_class np req (j + 1) (nxt (np n)) (Some n)) =
         (case find (\<lambda>n. req \<le> ucast (size128 (np n))) (take d rest) of
            Some n \<Rightarrow> Some n
          | None \<Rightarrow> if d < length rest then Some (rest ! d) else None)"
        unfolding d' .
      with True node d nofit show ?thesis
        by (subst scan_class.simps) (simp cong: option.case_cong)
    qed
  qed
qed

lemma first_phase_chain:
  assumes "list_nodes s (quarantine_index req) = Some ns"
  shows "fst (first_phase s req) = find (fits s req) (take (LIMIT + 1) ns)"
proof -
  let ?P = "\<lambda>n. req \<le> ucast (size128 (quarantine_pool s n))"
  let ?r = "scan_class (quarantine_pool s) req 0 (front (quarantine s (quarantine_index req))) None"
  from assms have ch: "chain (unat (quarantine_ptr s)) (quarantine_pool s)
      (front (quarantine s (quarantine_index req))) = Some ns"
    by (simp add: list_nodes_def)
  have scan: "fst ?r =
     (case find ?P (take LIMIT ns) of
        Some n \<Rightarrow> Some n
      | None \<Rightarrow> if LIMIT < length ns then Some (ns ! LIMIT) else None)"
    using scan_class_chain [OF ch, of 0 req None] by (simp cong: option.case_cong)
  have fp: "fst (first_phase s req) =
     (case fst ?r of None \<Rightarrow> None | Some n \<Rightarrow> if ?P n then Some n else None)"
    by (auto simp: first_phase_def Let_def split: prod.splits option.splits simp: not_le)
  have fits_eq: "fits s req = ?P" by (rule ext) (simp add: fits_def)
  show ?thesis
  proof (cases "find ?P (take LIMIT ns)")
    case None
    then show ?thesis
      by (simp add: fp scan fits_eq find_take_Suc)
  next
    case (Some n)
    then have "?P n" by (auto simp: find_Some_iff)
    with Some show ?thesis
      by (simp add: fp scan fits_eq find_take_Suc)
  qed
qed


section \<open>Free: proofs\<close>


lemma is_poisoned_cong:
  "nonce_size s' = nonce_size s \<Longrightarrow> nonce s' = nonce s \<Longrightarrow> mem s' a = mem s a \<Longrightarrow>
   is_poisoned s' a = is_poisoned s a"
  by (simp add: is_poisoned_def split: nonce_bits.splits)


lemma poison_fields: "poison s a b = s\<lparr>mem := mem (poison s a b)\<rparr>"
  by (cases "nonce_size s") (simp_all add: poison_def)

lemma mem_poison_other: "a' \<noteq> a \<Longrightarrow> mem (poison s a b) a' = mem s a'"
  by (cases "nonce_size s") (simp_all add: poison_def)

lemma quarantine_insert_exhausted:
  assumes "quarantine_free s = None" and "quarantine_pool_size s \<le> quarantine_ptr s"
  shows "fst (quarantine_insert s p n) = Trap \<and>
         snd (quarantine_insert s p n) =
           s\<lparr>quarantine_mmap := quarantine_mmap (snd (quarantine_insert s p n))\<rparr>"
  using assms by (simp add: quarantine_insert_def quarantine_node_alloc_def Let_def)

section \<open>Poisoning and zeroing loops: proofs\<close>

lemma poison_eq: "poison s a sz = s\<lparr>mem := (mem s)(a := token_of s sz)\<rparr>"
  by (cases "nonce_size s") (simp_all add: poison_def token_of_def)

lemma token_of_mem_update: "token_of (s\<lparr>mem := m\<rparr>) sz = token_of s sz"
  by (cases "nonce_size s") (simp_all add: token_of_def)


lemma word_at_0: "word_at p 0 = p"
  by (simp add: word_at_def)


lemma word_at_word: "p + 8 * i = word_at p (unat i)"
  by (simp add: word_at_def)

lemma unat_word_at:
  assumes "unat p + 8 * k < 2 ^ 64"
  shows "unat (word_at p k) = unat p + 8 * k"
proof -
  have k: "8 * k < 2 ^ 64" using assms by simp
  have "unat (8 * of_nat k :: 64 word) = unat (of_nat (8 * k) :: 64 word)" by simp
  also have "\<dots> = 8 * k" using k by (simp add: unat_of_nat del: of_nat_mult)
  finally have u: "unat (8 * of_nat k :: 64 word) = 8 * k" .
  have "unat p + unat (8 * of_nat k :: 64 word) < 2 ^ LENGTH(64)"
    using assms u by simp
  then have "unat (p + 8 * of_nat k) = unat p + unat (8 * of_nat k :: 64 word)"
    by (simp add: unat_add_lem [THEN iffD1])
  with u show ?thesis by (simp add: word_at_def)
qed

lemma word_at_inj:
  assumes "unat p + 8 * k < 2 ^ 64" and "unat p + 8 * k' < 2 ^ 64"
    and "word_at p k = word_at p k'"
  shows "k = k'"
proof -
  from assms(3) have "unat (word_at p k) = unat (word_at p k')" by simp
  with unat_word_at [OF assms(1)] unat_word_at [OF assms(2)]
  have "unat p + 8 * k = unat p + 8 * k'" by metis
  then show ?thesis by simp
qed



lemma range_Suc_lower:
  assumes "a \<noteq> word_at p lo"
  shows "(\<exists>k. lo \<le> k \<and> k < hi \<and> a = word_at p k) =
         (\<exists>k. Suc lo \<le> k \<and> k < hi \<and> a = word_at p k)"
  using assms by (metis Suc_leI le_neq_implies_less Suc_leD)

lemma poison_range_empty: "poison_range s p lo lo sz = s"
proof -
  have "(\<lambda>a. if \<exists>k. lo \<le> k \<and> k < lo \<and> a = word_at p k then token_of s sz
             else mem s a) = mem s"
    by (rule ext) auto
  then show ?thesis by (simp add: poison_range_def)
qed






lemma poison_range_lower:
  assumes "lo < hi"
  shows "poison_range (poison s (word_at p lo) sz) p (Suc lo) hi sz = poison_range s p lo hi sz"
proof -
  have "(\<lambda>a. if \<exists>k. Suc lo \<le> k \<and> k < hi \<and> a = word_at p k then token_of s sz
             else ((mem s)(word_at p lo := token_of s sz)) a) =
        (\<lambda>a. if \<exists>k. lo \<le> k \<and> k < hi \<and> a = word_at p k then token_of s sz else mem s a)"
  proof (rule ext)
    fix a
    show "(if \<exists>k. Suc lo \<le> k \<and> k < hi \<and> a = word_at p k then token_of s sz
           else ((mem s)(word_at p lo := token_of s sz)) a) =
          (if \<exists>k. lo \<le> k \<and> k < hi \<and> a = word_at p k then token_of s sz else mem s a)"
    proof (cases "a = word_at p lo")
      case True
      with assms have "\<exists>k. lo \<le> k \<and> k < hi \<and> a = word_at p k"
        by (intro exI [of _ lo]) simp
      with True show ?thesis by simp
    next
      case False
      have f: "((mem s)(word_at p lo := token_of s sz)) a = mem s a" using False by simp
      show ?thesis
        unfolding range_Suc_lower [OF False, symmetric] f ..
    qed
  qed
  then show ?thesis
    by (simp add: poison_range_def poison_eq token_of_mem_update cong: if_cong)
qed

lemma is_poisoned_mem:
  "is_poisoned s a =
     (case nonce_size s of N61 \<Rightarrow> rezzan_test_token61 (nonce s) (mem s a)
      | N64 \<Rightarrow> rezzan_test_token64 (nonce s) (mem s a))"
  by (simp add: is_poisoned_def)

lemma free_walk_up:
  assumes nw: "unat p + 8 * hi < 2 ^ 64" and le: "lo \<le> hi"
    and user: "\<forall>k. lo \<le> k \<and> k < hi \<longrightarrow> \<not> is_poisoned s (word_at p k)"
    and stop: "is_poisoned s (word_at p hi)"
  shows "free_walk s p (of_nat lo) = Some (of_nat hi, poison_range s p lo hi 0)"
  using le user stop
proof (induction "hi - lo" arbitrary: lo s)
  case 0
  then have "lo = hi" by simp
  with "0.prems"(3) show ?case
    by (subst free_walk.simps) (simp add: poison_range_empty word_at_def)
next
  case (Suc d)
  then have lt: "lo < hi" by simp
  let ?c = "poison s (word_at p lo) 0"
  have d: "d = hi - Suc lo" using Suc.hyps(2) by simp
  have np: "\<not> is_poisoned s (word_at p lo)" using Suc.prems(2) lt by simp
  have other: "is_poisoned ?c (word_at p k) = is_poisoned s (word_at p k)" if "lo < k" "k \<le> hi" for k
  proof -
    have "word_at p k \<noteq> word_at p lo"
    proof
      assume "word_at p k = word_at p lo"
      from word_at_inj [OF _ _ this] nw that show False by simp
    qed
    then show ?thesis by (rule is_poisoned_poison_other)
  qed
  have u': "\<forall>k. Suc lo \<le> k \<and> k < hi \<longrightarrow> \<not> is_poisoned ?c (word_at p k)"
    using Suc.prems(2) other by simp
  have s': "is_poisoned ?c (word_at p hi)" using Suc.prems(3) other [of hi] lt by simp
  from Suc.hyps(1) [OF d _ u' s'] lt
  have "free_walk ?c p (of_nat (Suc lo)) = Some (of_nat hi, poison_range ?c p (Suc lo) hi 0)"
    by simp
  then have "free_walk ?c p (of_nat lo + 1) = Some (of_nat hi, poison_range s p lo hi 0)"
    by (simp add: poison_range_lower [OF lt] add.commute)
  with np show ?case
    by (subst free_walk.simps) (simp add: word_at_def)
qed

lemma poison_range_fields:
  "poison_range s p lo hi sz = s\<lparr>mem := mem (poison_range s p lo hi sz)\<rparr>"
  by (simp add: poison_range_def)

lemma mem_poison_range:
  "mem (poison_range s p lo hi sz) a =
     (if \<exists>k. lo \<le> k \<and> k < hi \<and> a = word_at p k then token_of s sz else mem s a)"
  by (simp add: poison_range_def)

lemma token_of_poisoned:
  assumes "nonce_ok s" and "nonce_size s' = nonce_size s" and "nonce s' = nonce s"
    and "mem s' a = token_of s sz"
  shows "is_poisoned s' a"
proof (cases "nonce_size s")
  case N61
  with assms(1) have "nonce s AND 7 = 0" by (simp add: nonce_ok_def)
  from set61_test61 [OF this, of sz] N61 assms(2-4) show ?thesis
    by (simp add: is_poisoned_def token_of_def)
next
  case N64
  with set64_test64 [of "nonce s"] assms(2-4) show ?thesis
    by (simp add: is_poisoned_def token_of_def)
qed

lemma poison_range_poisons:
  assumes "nonce_ok s" and "lo \<le> k" and "k < hi"
  shows "is_poisoned (poison_range s p lo hi sz) (word_at p k)"
proof -
  have "mem (poison_range s p lo hi sz) (word_at p k) = token_of s sz"
    using assms(2,3) by (auto simp: mem_poison_range)
  then show ?thesis
    by (intro token_of_poisoned [OF assms(1)]) (simp_all add: poison_range_def)
qed

lemma poison_range_keeps:
  assumes "nonce_ok s" and "is_poisoned s a"
  shows "is_poisoned (poison_range s p lo hi sz) a"
proof (cases "\<exists>k. lo \<le> k \<and> k < hi \<and> a = word_at p k")
  case True
  then have "mem (poison_range s p lo hi sz) a = token_of s sz"
    by (simp add: mem_poison_range)
  then show ?thesis
    by (intro token_of_poisoned [OF assms(1)]) (simp_all add: poison_range_def)
next
  case False
  then have "mem (poison_range s p lo hi sz) a = mem s a"
    by (simp only: mem_poison_range if_False)
  then have "is_poisoned (poison_range s p lo hi sz) a = is_poisoned s a"
    by (intro is_poisoned_cong) (simp_all add: poison_range_def)
  with assms(2) show ?thesis by simp
qed

text \<open>\<^verbatim>\<open>free\<close> on an object: unpoisoned user words, then a poisoned word.\<close>

lemma free_object:
  assumes en: "option_enabled s" and nz: "ptr \<noteq> 0" and al: "ptr mod 16 = 0"
    and lo: "pool s \<le> ptr" and hi: "ptr < pool s + 16 * pool_size s"
    and nw: "unat ptr + 8 * u < 2 ^ 64" and u: "0 < u"
    and base: "is_poisoned s (ptr - 8)"
    and user: "\<forall>k<u. \<not> is_poisoned s (word_at ptr k)"
    and stop: "is_poisoned s (word_at ptr u)"
  shows "rezzan_free s ptr =
           Some (quarantine_insert (poison_range s ptr 0 u 0) ptr (free_size128 (of_nat u)))"
proof -
  from user u have first: "\<not> is_poisoned s ptr" using word_at_0 [of ptr] by metis
  have u': "\<forall>k. 0 \<le> k \<and> k < u \<longrightarrow> \<not> is_poisoned s (word_at ptr k)" using user by simp
  from free_walk_up [OF nw _ u' stop]
  have w: "free_walk s ptr 0 = Some (of_nat u, poison_range s ptr 0 u 0)" by simp
  from lo hi have rng: "\<not> (ptr < pool s \<or> pool s + 16 * pool_size s \<le> ptr)"
    by (simp add: not_less not_le)
  show ?thesis
    unfolding rezzan_free_def using en nz al rng first base w by simp
qed

lemma free_exhausted_object:
  assumes ex: "quarantine_free s = None" "quarantine_pool_size s \<le> quarantine_ptr s"
    and ok: "nonce_ok s"
    and en: "option_enabled s" and nz: "ptr \<noteq> 0" and al: "ptr mod 16 = 0"
    and lo: "pool s \<le> ptr" and hi: "ptr < pool s + 16 * pool_size s"
    and nw: "unat ptr + 8 * n < 2 ^ 64" and u: "0 < u" and un: "u < n"
    and base: "is_poisoned s (ptr - 8)"
    and user: "\<forall>k<u. \<not> is_poisoned s (word_at ptr k)"
    and red: "\<forall>k. u \<le> k \<and> k < n \<longrightarrow> is_poisoned s (word_at ptr k)"
  shows "rezzan_free s ptr = Some (Trap, free_state s ptr) \<and>
         quarantine (free_state s ptr) = quarantine s \<and>
         quarantine_pool (free_state s ptr) = quarantine_pool s \<and>
         quarantine_free (free_state s ptr) = quarantine_free s \<and>
         quarantine_usage (free_state s ptr) = quarantine_usage s \<and>
         (\<forall>k<n. is_poisoned (free_state s ptr) (word_at ptr k)) \<and>
         (\<forall>a. is_poisoned s a \<longrightarrow> is_poisoned (free_state s ptr) a)"
proof -
  let ?w = "poison_range s ptr 0 u 0"
  let ?r = "quarantine_insert ?w ptr (free_size128 (of_nat u))"
  have nwu: "unat ptr + 8 * u < 2 ^ 64" using nw un by simp
  from red un have stop: "is_poisoned s (word_at ptr u)" by simp
  have fr: "rezzan_free s ptr = Some ?r"
    by (rule free_object [OF en nz al lo hi nwu u base user stop])
  have wf: "?w = s\<lparr>mem := mem ?w\<rparr>" by (rule poison_range_fields)
  have q1: "quarantine_free ?w = None" "quarantine_pool_size ?w \<le> quarantine_ptr ?w"
    using ex by (simp_all add: poison_range_def)
  from quarantine_insert_exhausted [OF q1, of ptr "free_size128 (of_nat u)"]
  have t: "fst ?r = Trap" and st: "snd ?r = ?w\<lparr>quarantine_mmap := quarantine_mmap (snd ?r)\<rparr>"
    by simp_all
  have fs: "free_state s ptr = snd ?r" by (simp add: free_state_def fr split: prod.splits)
  have res: "rezzan_free s ptr = Some (Trap, free_state s ptr)"
    using fr t fs by (metis prod.collapse)
  have s': "free_state s ptr = s\<lparr>mem := mem ?w, quarantine_mmap := quarantine_mmap (snd ?r)\<rparr>"
    unfolding fs by (subst st, subst wf) simp
  have m: "mem (free_state s ptr) = mem ?w" "nonce (free_state s ptr) = nonce ?w"
    "nonce_size (free_state s ptr) = nonce_size ?w"
    "quarantine (free_state s ptr) = quarantine s"
    "quarantine_pool (free_state s ptr) = quarantine_pool s"
    "quarantine_free (free_state s ptr) = quarantine_free s"
    "quarantine_usage (free_state s ptr) = quarantine_usage s"
    by (subst s', simp add: poison_range_def)+
  have same: "is_poisoned (free_state s ptr) a = is_poisoned ?w a" for a
    by (intro is_poisoned_cong) (simp_all add: m)
  have reg: "is_poisoned (free_state s ptr) (word_at ptr k)" if "k < n" for k
  proof (cases "k < u")
    case True
    then show ?thesis unfolding same by (intro poison_range_poisons [OF ok]) simp_all
  next
    case False
    with that red have "is_poisoned s (word_at ptr k)" by simp
    then show ?thesis unfolding same by (rule poison_range_keeps [OF ok])
  qed
  have keep: "is_poisoned (free_state s ptr) a" if "is_poisoned s a" for a
    unfolding same using that by (rule poison_range_keeps [OF ok])
  from res m(4-7) reg keep show ?thesis by simp
qed

section \<open>The unit count of a request: proofs\<close>





















lemma zero_range_fields: "zero_range s p lo hi = s\<lparr>mem := mem (zero_range s p lo hi)\<rparr>"
  by (simp add: zero_range_def)



section \<open>The layout malloc leaves, and free on it: proofs\<close>


















section \<open>Malloc on a full pool: proofs\<close>

lemma pool_malloc_full:
  "pool_size s < pool_ptr s + n \<Longrightarrow> pool_malloc s n = (Return 0, s\<lparr>errno := ENOMEM\<rparr>)"
  by (simp add: pool_malloc_def Let_def)

lemma malloc_pool_full:
  assumes "option_enabled s"
    and "\<not> quarantine_size s < quarantine_usage s \<or>
         quarantine_malloc s (malloc_size128 (if sz = 0 then 1 else sz)) = (Return 0, s)"
    and "pool_size s < pool_ptr s + malloc_size128 (if sz = 0 then 1 else sz)"
  shows "rezzan_malloc s sz = Some (Trap, s\<lparr>errno := ENOMEM\<rparr>)"
proof -
  let ?n = "malloc_size128 (if sz = 0 then 1 else sz)"
  have q: "(if quarantine_size s < quarantine_usage s then quarantine_malloc s ?n
            else (Return 0, s)) = (Return 0, s)"
    using assms(2) by auto
  show ?thesis
    using assms(1) pool_malloc_full [OF assms(3)]
    by (simp add: rezzan_malloc_def Let_def q del: if_split cong: if_cong)
qed

section \<open>Evaluating malloc, free and the checks\<close>

lemmas malloc_defs = rezzan_malloc_def malloc_finish_def malloc_size128_def pool_malloc_def
  poison_def zero_def is_poisoned_def rezzan_set_token61_def rezzan_test_token61_def
  rezzan_set_token64_def rezzan_test_token64_def rezzan_zero_token_def
  poison_loop.simps zero_loop.simps free_walk.simps check_user.simps check_redzone.simps
  malloc_checks_def POOL_MMAP_SIZE_def PAGE_SIZE_def ENOMEM_def
  word_le_nat_alt word_less_nat_alt Let_def

lemmas init_defs = default_config_def rezzan_init_def static_state_def QUARANTINE_MMAP_SIZE_def

lemmas check_defs = check_poisoned_def check_words.simps

lemmas free_defs = rezzan_free_def free_size128_def quarantine_insert_def
  quarantine_node_alloc_def QUARANTINE_MMAP_SIZE_def

lemma all_less_numeral:
  "(\<forall>k<numeral n. P k) = (P (pred_numeral n) \<and> (\<forall>k<pred_numeral n. P k))"
  by (simp add: numeral_eq_Suc All_less_Suc)

lemma all_less_one: "(\<forall>k<(1::nat). P k) = P 0"
  by simp

lemma nodes_exhausted_fields:
  "mem nodes_exhausted =
     (\<lambda>_. 0)(11725260718080 := - 81985529216486888, 11725260718088 := - 81985529216486888,
              11725260718200 := - 81985529216486884)"
  "nonce nodes_exhausted = 81985529216486888"
  "nonce_size nodes_exhausted = N61"
  "pool nodes_exhausted = 11725260718080"
  "pool_size nodes_exhausted = 134217728"
  "option_enabled nodes_exhausted"
  "quarantine_free nodes_exhausted = None"
  "quarantine_ptr nodes_exhausted = 33554432"
  "quarantine_mmap nodes_exhausted = 33554432"
  "quarantine_pool_size nodes_exhausted = 33554432"
  "pool_mmap nodes_exhausted = 2048"
  by (simp_all add: nodes_exhausted_def malloc_state_def fresh_state malloc_defs)

section \<open>Claims\<close>

text \<open>
  C9, as stated, fails: one unit has base-2 logarithm 0, but \<^verbatim>\<open>quarantine_index\<close>
  puts it in class 1 (the index is the bit length \<^verbatim>\<open>64 - clz\<close>, one more than the
  floor of the logarithm).
\<close>

theorem C9_index_counterexample:
  "quarantine_index 1 \<noteq> spec_quarantine_index 1"
  by (simp add: quarantine_index_def spec_quarantine_index_def builtin_clzll_def
      QUARANTINE_CLASSES_def floor_log2.simps eval_nat_numeral)

text \<open>
  C9, amended: for every unit count \<open>s \<ge> 1\<close>, \<^verbatim>\<open>quarantine_index(s)\<close> is the floor of
  the base-2 logarithm of \<open>s\<close> plus one, clamped to 19; and \<^verbatim>\<open>quarantine_index(0) = 0\<close>,
  so that class 0 holds no region of positive size.
\<close>

theorem C9_index_amended:
  "quarantine_index 0 = 0 \<and>
   (s \<noteq> 0 \<longrightarrow> quarantine_index s = min (floor_log2 (unat s) + 1) 19)"
proof -
  have zero: "quarantine_index 0 = 0" by (simp add: quarantine_index_def)
  have "quarantine_index s = min (floor_log2 (unat s) + 1) 19" if "s \<noteq> 0"
  proof -
    from that have "0 < unat s" by (simp add: unat_gt_0)
    from floor_log2_bounds [OF this] show ?thesis
      by (intro quarantine_index_bounds) simp_all
  qed
  with zero show ?thesis by simp
qed

theorem C9_index_amended_witness:
  "quarantine_index 0 = 0 \<and> (5::64 word) \<noteq> 0 \<and> quarantine_index 5 = 3 \<and>
   quarantine_index 1048576 = 19"
proof -
  have a: "floor_log2 (unat (5::64 word)) = 2"
    by (rule floor_log2_unique) simp_all
  have b: "floor_log2 (unat (1048576::64 word)) = 20"
    by (rule floor_log2_unique) simp_all
  from C9_index_amended [of 5] C9_index_amended [of 1048576] a b
  show ?thesis by simp
qed

text \<open>
  C8 fails on the code. With regions of 2 and 3 units on list 2 (a well-formed
  quarantine), \<^verbatim>\<open>quarantine_malloc(3)\<close> skips node 0, takes node 1 (the back node, behind
  the predecessor node 0) and only writes \<^verbatim>\<open>prev->next\<close>: afterwards the walk from
  \<^verbatim>\<open>front\<close> ends at node 0, while \<^verbatim>\<open>back\<close> still points to node 1, which is on the node
  freelist. List 2 is no longer well-formed.
\<close>

theorem C8_detach_back_leaves_stale_back:
  "quarantine_wf two_regions \<and> list_nodes two_regions 2 = Some [0, 1] \<and>
   fst (quarantine_malloc two_regions 3) = Return (pool fresh + 48) \<and>
   list_nodes after_detach 2 = Some [0] \<and> back (quarantine after_detach 2) = Some 1 \<and>
   quarantine_free after_detach = Some 1 \<and> \<not> list_wf after_detach 2 \<and>
   \<not> quarantine_wf after_detach"
proof -
  have a: "quarantine_wf two_regions"
    by (simp add: quarantine_wf_single [OF two_regions_fields(1)] list_wf_def
        two_regions_nodes two_regions_fields)
  have b: "fst (quarantine_malloc two_regions 3) = Return (pool fresh + 48)"
    by (simp add: two_regions_def eval_defs)
  have c: "\<not> list_wf after_detach 2" "\<not> quarantine_wf after_detach"
    by (simp_all add: quarantine_wf_single [OF after_detach_fields(1)] list_wf_def
        after_detach_nodes after_detach_fields QUARANTINE_CLASSES_def)
  from a b c show ?thesis
    by (simp add: after_detach_fields two_regions_nodes after_detach_nodes)
qed

text \<open>
  C7 fails on the code, through the stale \<^verbatim>\<open>back\<close> pointer of C8. The counter and the
  lists agree up to the detach (5 and 5, then 2 and 2). The next insertion of 2 units
  reuses node 1 and appends it behind the stale \<^verbatim>\<open>back\<close>, that is behind itself:
  \<^verbatim>\<open>quarantine_usage\<close> is 4, the nodes on the lists sum to 2. One more round leaves
  \<^verbatim>\<open>quarantine_usage = 4\<close> with every \<^verbatim>\<open>front\<close> pointer \<^verbatim>\<open>NULL\<close>.
\<close>

theorem C7_usage_exceeds_listed_sizes:
  "unat (quarantine_usage two_regions) = 5 \<and> live_sum two_regions = 5 \<and>
   unat (quarantine_usage after_detach) = 2 \<and> live_sum after_detach = 2 \<and>
   unat (quarantine_usage after_reinsert) = 4 \<and> live_sum after_reinsert = 2 \<and>
   unat (quarantine_usage after_second_round) = 4 \<and> live_sum after_second_round = 0"
proof -
  have a: "live_sum two_regions = 5"
    by (simp add: live_sum_single [OF two_regions_fields(1)] list_sum_def
        two_regions_nodes two_regions_fields QUARANTINE_CLASSES_def)
  have b: "live_sum after_detach = 2"
    by (simp add: live_sum_single [OF after_detach_fields(1)] list_sum_def
        after_detach_nodes after_detach_fields QUARANTINE_CLASSES_def)
  have c: "live_sum after_reinsert = 2"
    by (simp add: live_sum_single [OF after_reinsert_fields(1)] list_sum_def
        after_reinsert_nodes after_reinsert_fields QUARANTINE_CLASSES_def)
  have d: "live_sum after_second_round = 0"
    by (simp add: live_sum_single [OF after_second_round_fields(1)] list_sum_def
        after_second_round_nodes after_second_round_fields QUARANTINE_CLASSES_def)
  from a b c d show ?thesis
    by (simp add: two_regions_fields after_detach_fields after_reinsert_fields
        after_second_round_fields)
qed

text \<open>
  C10, as stated, fails: the loop stops after 8 nodes, but the line after it tests the
  node the loop stopped at, the ninth. With eight regions of 4 units followed by one of
  7 units, a request for 7 units finds no node among the first 8, and the first phase
  selects node 8.
\<close>

theorem C10_ninth_node_counterexample:
  "list_nodes nine_regions (quarantine_index 7) = Some [0, 1, 2, 3, 4, 5, 6, 7, 8] \<and>
   spec_first_phase nine_regions 7 [0, 1, 2, 3, 4, 5, 6, 7, 8] = None \<and>
   fst (first_phase nine_regions 7) = Some 8"
proof -
  have b: "spec_first_phase nine_regions 7 [0, 1, 2, 3, 4, 5, 6, 7, 8] = None"
    by (simp add: spec_first_phase_def fits_def nine_regions_fields word_le_nat_alt)
  have c: "fst (first_phase nine_regions 7) = Some 8"
    by (simp add: first_phase_def nine_regions_fields quarantine_index_values
        scan_class.simps LIMIT_def Let_def word_le_nat_alt word_less_nat_alt)
  from b c show ?thesis by (simp add: quarantine_index_values nine_regions_nodes)
qed

text \<open>
  C10, amended: in its first phase \<^verbatim>\<open>quarantine_malloc(req128)\<close> inspects at most the
  first 9 nodes of list \<^verbatim>\<open>index(req128)\<close> front-to-back (8 in the loop, then the node the
  loop stopped at) and selects the first of those whose \<^verbatim>\<open>size128 >= req128\<close>; if none of
  the first 9 nodes qualifies, the first phase selects no node.
\<close>

theorem C10_first_phase_nine_nodes:
  assumes "list_nodes s (quarantine_index req128) = Some ns"
  shows "fst (first_phase s req128) = find (fits s req128) (take 9 ns)"
  using first_phase_chain [OF assms] by (simp add: LIMIT_def)

theorem C10_first_phase_nine_nodes_witness:
  "list_nodes nine_regions (quarantine_index 7) = Some [0, 1, 2, 3, 4, 5, 6, 7, 8] \<and>
   fst (first_phase nine_regions 7) =
     find (fits nine_regions 7) (take 9 [0, 1, 2, 3, 4, 5, 6, 7, 8])"
proof -
  have a: "list_nodes nine_regions (quarantine_index 7) = Some [0, 1, 2, 3, 4, 5, 6, 7, 8]"
    by (simp add: quarantine_index_values nine_regions_nodes)
  from a C10_first_phase_nine_nodes [OF a] show ?thesis by simp
qed

text \<open>
  C2 fails on the code. For a request of \<open>2^64 - 1\<close> bytes \<^verbatim>\<open>size + sizeof(Token)\<close> wraps
  around to 7, the unit count becomes 1, and \<^verbatim>\<open>malloc\<close> returns a pointer to a region of
  16 bytes: \<^verbatim>\<open>size < size128 * 16\<close> is false, and the unit count is not
  \<open>ceil((s + 8) / 16)\<close>. With \<^verbatim>\<open>REZZAN_CHECKS\<close> the same call stops at the code's own
  check of \<^verbatim>\<open>size >= size128 * sizeof(Unit)\<close>.
\<close>

theorem C2_size_overflow:
  "malloc_result fresh 18446744073709551615 = Some (Return (pool fresh + 16)) \<and>
   malloc_size128 18446744073709551615 = 1 \<and>
   \<not> (18446744073709551615 :: size_t) < malloc_size128 18446744073709551615 * 16 \<and>
   pool_ptr (malloc_state fresh 18446744073709551615) = pool_ptr fresh + 1 \<and>
   malloc_result fresh_checked 18446744073709551615 = Some Trap"
  by (simp add: malloc_result_def malloc_state_def fresh_state fresh_checked_def init_defs
      malloc_defs)

text \<open>
  C5, as stated, fails: in a process whose pool of 2048 units cannot hold a request of
  32768 bytes, with the quarantine below its threshold, \<^verbatim>\<open>malloc\<close> does not return
  \<^verbatim>\<open>NULL\<close>; it stops in \<^verbatim>\<open>error\<close>.
\<close>

theorem C5_pool_full_counterexample:
  "\<not> quarantine_size fresh_small < quarantine_usage fresh_small \<and>
   pool_size fresh_small < pool_ptr fresh_small + malloc_size128 32768 \<and>
   malloc_result fresh_small 32768 = Some Trap \<and>
   malloc_result fresh_small 32768 \<noteq> Some (Return 0)"
  by (simp add: malloc_result_def fresh_small_def init_defs malloc_defs)

text \<open>
  C5, amended: when a request cannot be satisfied (the quarantine is not consulted or
  yields nothing, and \<^verbatim>\<open>pool_ptr + size128 > pool_size\<close>), \<^verbatim>\<open>pool_malloc\<close> returns \<^verbatim>\<open>NULL\<close>
  with \<^verbatim>\<open>errno = ENOMEM\<close>, and \<^verbatim>\<open>rezzan_malloc\<close> answers the \<^verbatim>\<open>NULL\<close> with \<^verbatim>\<open>error\<close>: the
  call ends in the illegal-instruction trap and returns nothing to the caller.
\<close>

theorem C5_pool_full_traps:
  assumes "option_enabled s"
    and "\<not> quarantine_size s < quarantine_usage s \<or>
         quarantine_malloc s (malloc_size128 (if sz = 0 then 1 else sz)) = (Return 0, s)"
    and "pool_size s < pool_ptr s + malloc_size128 (if sz = 0 then 1 else sz)"
  shows "pool_malloc s (malloc_size128 (if sz = 0 then 1 else sz)) =
           (Return 0, s\<lparr>errno := ENOMEM\<rparr>) \<and>
         rezzan_malloc s sz = Some (Trap, s\<lparr>errno := ENOMEM\<rparr>)"
  using pool_malloc_full [OF assms(3)] malloc_pool_full [OF assms] by simp

theorem C5_pool_full_traps_witness:
  "option_enabled fresh_small \<and>
   \<not> quarantine_size fresh_small < quarantine_usage fresh_small \<and>
   pool_size fresh_small < pool_ptr fresh_small + malloc_size128 32768 \<and>
   pool_malloc fresh_small (malloc_size128 32768) = (Return 0, fresh_small\<lparr>errno := ENOMEM\<rparr>) \<and>
   rezzan_malloc fresh_small 32768 = Some (Trap, fresh_small\<lparr>errno := ENOMEM\<rparr>)"
proof -
  have a: "option_enabled fresh_small"
    by (simp add: fresh_small_def init_defs malloc_defs)
  have b: "\<not> quarantine_size fresh_small < quarantine_usage fresh_small"
    by (simp add: fresh_small_def init_defs malloc_defs)
  have c: "pool_size fresh_small < pool_ptr fresh_small + malloc_size128 32768"
    by (simp add: fresh_small_def init_defs malloc_defs)
  from b have b': "\<not> quarantine_size fresh_small < quarantine_usage fresh_small \<or>
      quarantine_malloc fresh_small (malloc_size128 (if (32768 :: size_t) = 0 then 1 else 32768))
        = (Return 0, fresh_small)" by simp
  from c have c': "pool_size fresh_small
      < pool_ptr fresh_small + malloc_size128 (if (32768 :: size_t) = 0 then 1 else 32768)"
    by simp
  from C5_pool_full_traps [OF a b' c'] a b c show ?thesis by simp
qed

text \<open>
  C6, as stated, fails: with the node freelist empty and all \<^verbatim>\<open>quarantine_pool_size\<close>
  nodes handed out, \<^verbatim>\<open>free\<close> of a live object of 100 bytes does not return;
  \<^verbatim>\<open>quarantine_node_alloc\<close> stops in \<^verbatim>\<open>error\<close>.
\<close>

theorem C6_node_exhaustion_counterexample:
  "quarantine_free nodes_exhausted = None \<and>
   quarantine_pool_size nodes_exhausted \<le> quarantine_ptr nodes_exhausted \<and>
   free_result nodes_exhausted (pool fresh + 16) = Some Trap \<and>
   free_result nodes_exhausted (pool fresh + 16) \<noteq> Some (Return ())"
  by (simp add: nodes_exhausted_def free_result_def malloc_state_def fresh_state
      malloc_defs free_defs)

text \<open>
  C6, amended: let \<^verbatim>\<open>ptr\<close> be the base of an object of the pool: 16-byte aligned, behind
  the first unit of the pool, the token before it poisoned, \<open>u > 0\<close> unpoisoned user
  words, then poisoned redzone words up to word \<open>n\<close> of the region, all of it in the
  mapped part of the pool. Let the node pool (at \<^verbatim>\<open>0xaa900000000\<close>, 16 bytes a node) still
  end below the heap pool (at \<^verbatim>\<open>0xaaa00000000\<close>) after one more growth by
  \<^verbatim>\<open>QUARANTINE_MMAP_SIZE\<close> nodes. When \<^verbatim>\<open>free(ptr)\<close> cannot obtain a \<^verbatim>\<open>FreeNode\<close> (the node
  freelist is empty and \<^verbatim>\<open>quarantine_ptr >= quarantine_pool_size\<close>), the call does end, in
  the illegal-instruction trap of \<^verbatim>\<open>error\<close>. At the trap every word of the region is
  poisoned, no word that was poisoned has lost its token, the region is on no
  quarantine list (lists, nodes and node freelist are as before) and
  \<^verbatim>\<open>quarantine_usage\<close> is unchanged.
\<close>

theorem C6_node_exhaustion_traps:
  assumes ex: "quarantine_free s = None" "quarantine_pool_size s \<le> quarantine_ptr s"
    and below: "unat (quarantine_mmap s) + 512 \<le> 2 ^ 28"
    and ok: "nonce_ok s" and en: "option_enabled s"
    and nz: "ptr \<noteq> 0" and al: "ptr mod 16 = 0"
    and lo: "pool s < ptr" and hi: "ptr < pool s + 16 * pool_size s"
    and mapped: "unat ptr + 8 * n \<le> unat (pool s) + 16 * unat (pool_mmap s)"
    and nw: "unat ptr + 8 * n < 2 ^ 64" and u: "0 < u" and un: "u < n"
    and base: "is_poisoned s (ptr - 8)"
    and user: "\<forall>k<u. \<not> is_poisoned s (word_at ptr k)"
    and red: "\<forall>k. u \<le> k \<and> k < n \<longrightarrow> is_poisoned s (word_at ptr k)"
  shows "rezzan_free s ptr = Some (Trap, free_state s ptr) \<and>
         quarantine (free_state s ptr) = quarantine s \<and>
         quarantine_pool (free_state s ptr) = quarantine_pool s \<and>
         quarantine_free (free_state s ptr) = quarantine_free s \<and>
         quarantine_usage (free_state s ptr) = quarantine_usage s \<and>
         (\<forall>k<n. is_poisoned (free_state s ptr) (word_at ptr k)) \<and>
         (\<forall>a. is_poisoned s a \<longrightarrow> is_poisoned (free_state s ptr) a)"
proof -
  from lo have "pool s \<le> ptr" by simp
  then show ?thesis
    by (rule free_exhausted_object [OF ex ok en nz al _ hi nw u un base user red])
qed

theorem C6_node_exhaustion_traps_witness:
  "quarantine_free nodes_exhausted = None \<and>
   quarantine_pool_size nodes_exhausted \<le> quarantine_ptr nodes_exhausted \<and>
   unat (quarantine_mmap nodes_exhausted) + 512 \<le> 2 ^ 28 \<and>
   nonce_ok nodes_exhausted \<and> option_enabled nodes_exhausted \<and>
   pool fresh + 16 \<noteq> 0 \<and> (pool fresh + 16) mod 16 = 0 \<and>
   pool nodes_exhausted < pool fresh + 16 \<and>
   pool fresh + 16 < pool nodes_exhausted + 16 * pool_size nodes_exhausted \<and>
   unat (pool fresh + 16) + 8 * 14 \<le>
     unat (pool nodes_exhausted) + 16 * unat (pool_mmap nodes_exhausted) \<and>
   unat (pool fresh + 16) + 8 * 14 < 2 ^ 64 \<and>
   is_poisoned nodes_exhausted (pool fresh + 16 - 8) \<and>
   \<not> is_poisoned nodes_exhausted (word_at (pool fresh + 16) 0) \<and>
   \<not> is_poisoned nodes_exhausted (word_at (pool fresh + 16) 1) \<and>
   \<not> is_poisoned nodes_exhausted (word_at (pool fresh + 16) 2) \<and>
   \<not> is_poisoned nodes_exhausted (word_at (pool fresh + 16) 3) \<and>
   \<not> is_poisoned nodes_exhausted (word_at (pool fresh + 16) 4) \<and>
   \<not> is_poisoned nodes_exhausted (word_at (pool fresh + 16) 5) \<and>
   \<not> is_poisoned nodes_exhausted (word_at (pool fresh + 16) 6) \<and>
   \<not> is_poisoned nodes_exhausted (word_at (pool fresh + 16) 7) \<and>
   \<not> is_poisoned nodes_exhausted (word_at (pool fresh + 16) 8) \<and>
   \<not> is_poisoned nodes_exhausted (word_at (pool fresh + 16) 9) \<and>
   \<not> is_poisoned nodes_exhausted (word_at (pool fresh + 16) 10) \<and>
   \<not> is_poisoned nodes_exhausted (word_at (pool fresh + 16) 11) \<and>
   \<not> is_poisoned nodes_exhausted (word_at (pool fresh + 16) 12) \<and>
   is_poisoned nodes_exhausted (word_at (pool fresh + 16) 13) \<and>
   rezzan_free nodes_exhausted (pool fresh + 16) =
     Some (Trap, free_state nodes_exhausted (pool fresh + 16)) \<and>
   quarantine (free_state nodes_exhausted (pool fresh + 16)) = quarantine nodes_exhausted \<and>
   quarantine_usage (free_state nodes_exhausted (pool fresh + 16)) =
     quarantine_usage nodes_exhausted \<and>
   is_poisoned (free_state nodes_exhausted (pool fresh + 16)) (word_at (pool fresh + 16) 0) \<and>
   is_poisoned (free_state nodes_exhausted (pool fresh + 16)) (word_at (pool fresh + 16) 1) \<and>
   is_poisoned (free_state nodes_exhausted (pool fresh + 16)) (word_at (pool fresh + 16) 2) \<and>
   is_poisoned (free_state nodes_exhausted (pool fresh + 16)) (word_at (pool fresh + 16) 3) \<and>
   is_poisoned (free_state nodes_exhausted (pool fresh + 16)) (word_at (pool fresh + 16) 4) \<and>
   is_poisoned (free_state nodes_exhausted (pool fresh + 16)) (word_at (pool fresh + 16) 5) \<and>
   is_poisoned (free_state nodes_exhausted (pool fresh + 16)) (word_at (pool fresh + 16) 6) \<and>
   is_poisoned (free_state nodes_exhausted (pool fresh + 16)) (word_at (pool fresh + 16) 7) \<and>
   is_poisoned (free_state nodes_exhausted (pool fresh + 16)) (word_at (pool fresh + 16) 8) \<and>
   is_poisoned (free_state nodes_exhausted (pool fresh + 16)) (word_at (pool fresh + 16) 9) \<and>
   is_poisoned (free_state nodes_exhausted (pool fresh + 16)) (word_at (pool fresh + 16) 10) \<and>
   is_poisoned (free_state nodes_exhausted (pool fresh + 16)) (word_at (pool fresh + 16) 11) \<and>
   is_poisoned (free_state nodes_exhausted (pool fresh + 16)) (word_at (pool fresh + 16) 12) \<and>
   is_poisoned (free_state nodes_exhausted (pool fresh + 16)) (word_at (pool fresh + 16) 13)"
proof -
  note ev = nodes_exhausted_fields fresh_state is_poisoned_def rezzan_test_token61_def
    word_at_def nonce_ok_def word_le_nat_alt word_less_nat_alt
  have a: "quarantine_free nodes_exhausted = None" by (simp add: ev)
  have b: "quarantine_pool_size nodes_exhausted \<le> quarantine_ptr nodes_exhausted"
    by (simp add: ev)
  have c: "unat (quarantine_mmap nodes_exhausted) + 512 \<le> 2 ^ 28" by (simp add: ev)
  have d: "nonce_ok nodes_exhausted" by (simp add: ev)
  have e: "option_enabled nodes_exhausted" by (simp add: ev)
  have f: "pool fresh + 16 \<noteq> 0" by (simp add: ev)
  have g: "(pool fresh + 16) mod 16 = 0" by (simp add: ev)
  have h: "pool nodes_exhausted < pool fresh + 16" by (simp add: ev)
  have i: "pool fresh + 16 < pool nodes_exhausted + 16 * pool_size nodes_exhausted"
    by (simp add: ev)
  have mp: "unat (pool fresh + 16) + 8 * 14 \<le>
      unat (pool nodes_exhausted) + 16 * unat (pool_mmap nodes_exhausted)"
    by (simp add: ev)
  have j: "unat (pool fresh + 16) + 8 * 14 < 2 ^ 64" by (simp add: ev)
  have u0: "(0::nat) < 13" by simp
  have un: "(13::nat) < 14" by simp
  have k: "is_poisoned nodes_exhausted (pool fresh + 16 - 8)" by (simp add: ev)
  have l: "\<forall>k<13. \<not> is_poisoned nodes_exhausted (word_at (pool fresh + 16) k)"
    by (simp add: all_less_numeral all_less_one ev)
  have m: "\<forall>k. 13 \<le> k \<and> k < 14 \<longrightarrow>
      is_poisoned nodes_exhausted (word_at (pool fresh + 16) k)"
  proof (intro allI impI)
    fix k :: nat
    assume "13 \<le> k \<and> k < 14"
    then have "k = 13" by simp
    then show "is_poisoned nodes_exhausted (word_at (pool fresh + 16) k)"
      by (simp add: ev)
  qed
  have l': "\<not> is_poisoned nodes_exhausted (word_at (pool fresh + 16) k)" if "k < 13" for k
    using l that by simp
  have m': "is_poisoned nodes_exhausted (word_at (pool fresh + 16) 13)"
    using m by simp
  note t = C6_node_exhaustion_traps [OF a b c d e f g h i mp j u0 un k l m]
  have p: "is_poisoned (free_state nodes_exhausted (pool fresh + 16))
      (word_at (pool fresh + 16) k)" if "k < 14" for k
    using t that by simp
  from t a b c d e f g h i mp j k m' show ?thesis
    by (simp add: l' p)
qed



text \<open>
  C4 fails on the code. \<^verbatim>\<open>check_poisoned\<close> keeps the length in an \<^verbatim>\<open>int\<close>. With an object
  \<open>p\<close> of \<open>2^32\<close> bytes and an object \<open>q\<close> of \<open>2^32 + 8\<close> bytes, a copy of \<open>2^32 + 8\<close> bytes
  from \<open>q\<close> to \<open>p\<close> has the poisoned redzone word at \<open>p + 2^32\<close> in the cover of its
  destination, but the check looks at one word only and both \<^verbatim>\<open>memcpy\<close> and \<^verbatim>\<open>memmove\<close>
  go on to copy.
\<close>

theorem C4_long_copy_unchecked:
  "malloc_result fresh_large 4294967296 = Some (Return (pool fresh_large + 16)) \<and>
   malloc_result (malloc_state fresh_large 4294967296) 4294967304 =
     Some (Return (pool fresh_large + 4294967328)) \<and>
   is_poisoned two_large_objects (pool fresh_large + 16 + 4294967296) \<and>
   check_poisoned two_large_objects (pool fresh_large + 16) 4294967304 = Return () \<and>
   fst (memcpy two_large_objects (pool fresh_large + 16) (pool fresh_large + 4294967328)
          4294967304) = Return (pool fresh_large + 16) \<and>
   fst (memmove two_large_objects (pool fresh_large + 16) (pool fresh_large + 4294967328)
          4294967304) = Return (pool fresh_large + 16)"
  by (simp add: two_large_objects_def malloc_result_def malloc_state_def fresh_large_def
      init_defs malloc_defs check_defs memcpy_def memmove_def)

text \<open>
  C1 fails on the code. After \<^verbatim>\<open>p = malloc(5)\<close> in 61-bit mode the redzone token at
  \<open>p + 8\<close> carries the boundary 5, and the checks of the byte at \<open>p + 4\<close>, \<open>p + 5\<close> and
  \<open>p + 8\<close> do what the claim says. The check of the byte at \<open>p + 7\<close> returns: the range
  ends on a word boundary, \<^verbatim>\<open>end_delta\<close> is 0, and \<^verbatim>\<open>check_poisoned\<close> looks at the boundary
  of the next token only when \<^verbatim>\<open>end_delta\<close> is not 0. For the same reason the byte at
  \<open>p + 7\<close> right behind an object of 7 bytes passes the check.
\<close>

theorem C1_word_end_unchecked:
  "nonce_size fresh = N61 \<and>
   malloc_result fresh 5 = Some (Return (pool fresh + 16)) \<and>
   is_poisoned (malloc_state fresh 5) (pool fresh + 16 + 8) \<and>
   mem (malloc_state fresh 5) (pool fresh + 16 + 8) AND 7 = 5 \<and>
   check_poisoned (malloc_state fresh 5) (pool fresh + 16 + 4) 1 = Return () \<and>
   check_poisoned (malloc_state fresh 5) (pool fresh + 16 + 5) 1 = Trap \<and>
   check_poisoned (malloc_state fresh 5) (pool fresh + 16 + 8) 1 = Trap \<and>
   check_poisoned (malloc_state fresh 5) (pool fresh + 16 + 7) 1 = Return () \<and>
   malloc_result fresh 7 = Some (Return (pool fresh + 16)) \<and>
   is_poisoned (malloc_state fresh 7) (pool fresh + 16 + 8) \<and>
   check_poisoned (malloc_state fresh 7) (pool fresh + 16 + 7) 1 = Return ()"
  by (simp add: malloc_result_def malloc_state_def fresh_state malloc_defs check_defs
      is_poisoned_def rezzan_test_token61_def)

end
